theory Spec2Isabelle
  imports Main "HOL-Library.Word"
begin

section \<open>Data model of \<open>cmd/trace/pprof.go\<close>\<close>

text \<open>
  The file serves four pprof-like profiles computed from an execution trace. Its
  integers are Go's \<open>uint64\<close> and \<open>int64\<close>; both are 64-bit words here, so \<open>+\<close> and
  \<open>-\<close> wrap as they do in Go, \<open>unat\<close> reads a word as unsigned and \<open>sint\<close> as signed.
  The conversions \<open>int64(rec.n)\<close> and \<open>int64(frame.Line)\<close> keep the bits they are given.
\<close>

type_synonym uint64 = "64 word"
type_synonym int64 = "64 word"

text \<open>
  Modelled from the spec: \<open>trace.Frame\<close>, declared in package \<open>internal/trace\<close> and not in
  \<open>pprof.go\<close>; section 3 of the specification lists its four fields. Their types are
  those the uses in \<open>buildProfile\<close> fix: \<open>PC\<close> is a key of a \<open>map[uint64]\<close>, \<open>File\<close> and
  \<open>Fn\<close> are concatenated into a \<open>string\<close> key, and \<open>Line\<close> is an integer converted with
  \<open>int64(...)\<close>, a conversion that keeps its value.
\<close>

record Frame =
  PC :: uint64
  Fn :: string
  File :: string
  Line :: int64

text \<open>
  Modelled from the spec: the event kinds of package \<open>internal/trace\<close>, whose constant
  declarations are not part of \<open>pprof.go\<close>. The nine kinds the file names (section 3 and
  the table of section 4.1 of the specification) are constructors of their own; every
  other kind of the trace format is \<open>EvOther\<close>.
\<close>

datatype EvType =
    EvGoCreate
  | EvGoUnblock
  | EvGoBlockSend
  | EvGoBlockRecv
  | EvGoBlockSelect
  | EvGoBlockSync
  | EvGoBlockCond
  | EvGoBlockNet
  | EvGoSysCall
  | EvOther

text \<open>
  Modelled from the spec: \<open>trace.Event\<close>, declared in package \<open>internal/trace\<close> and not in
  \<open>pprof.go\<close>; these are the five fields of section 3 of the specification, which are
  the ones the four analyses read. \<open>Link\<close> is a pointer the code compares with \<open>nil\<close>,
  hence an option; \<open>Ts\<close> is subtracted into an \<open>int64\<close> and \<open>StkID\<close> is a key of a
  \<open>map[uint64]Record\<close>. The events and frames themselves are reached through pointers
  that the code dereferences without a check; they are values here.
\<close>

datatype Event =
  Event (Type: EvType) (Ts: int64) (StkID: uint64) (Stk: "Frame list") (Link: "Event option")

text \<open>\<open>Record\<close> (lines 28-33): one entry of a pprof-like profile.\<close>

record Record =
  stk :: "Frame list"
  n :: uint64
  time :: int64

text \<open>
  Modelled from the spec: the types of package \<open>cmd/internal/pprof/profile\<close>, declared
  outside \<open>pprof.go\<close>; section 3 of the specification describes the \<open>Profile\<close> and its
  entries. The fields are those \<open>buildProfile\<close> fills in, with the types of the values it
  stores in them. Every pointer it stores (\<open>*ValueType\<close>, \<open>*Function\<close>, \<open>*Location\<close>,
  \<open>*Sample\<close>) points to an object that is created once and never written again, so the
  objects are values here.
\<close>

record ValueType =
  Type :: string
  Unit :: string

record Function =
  ID :: uint64
  Name :: string
  SystemName :: string
  Filename :: string

record Line =
  Function :: Function
  Line :: int64

record Location =
  ID :: uint64
  Address :: uint64
  Line :: "Line list"

record Sample =
  Value :: "int64 list"
  Location :: "Location list"

record Profile =
  PeriodType :: ValueType
  Period :: int64
  SampleType :: "ValueType list"
  Sample :: "Sample list"
  Location :: "Location list"
  Function :: "Function list"

section \<open>The four aggregation loops\<close>

text \<open>
  Dereferencing a nil \<open>Link\<close> is the one way the loops could panic; the model keeps that
  branch, and the loops return either the panic or the map they built.
\<close>

datatype panic = NilDereference

text \<open>
  The five statements every loop runs on an event it keeps (lines 46-50, 72-76, 92-96,
  114-118). Reading a missing key of a Go map gives the zero \<open>Record\<close>.
\<close>

definition index_Record :: "(uint64 \<rightharpoonup> Record) \<Rightarrow> uint64 \<Rightarrow> Record" where
  "index_Record prof k = (case prof k of None \<Rightarrow> \<lparr>stk = [], n = 0, time = 0\<rparr> | Some r \<Rightarrow> r)"

definition accumulate :: "(uint64 \<rightharpoonup> Record) \<Rightarrow> Event \<Rightarrow> panic + (uint64 \<rightharpoonup> Record)" where
  "accumulate prof ev =
     (let rec = index_Record prof (StkID ev);
          rec = rec\<lparr>stk := Stk ev\<rparr>;
          rec = rec\<lparr>n := n rec + 1\<rparr>
      in case Link ev of
           None \<Rightarrow> Inl NilDereference
         | Some link \<Rightarrow>
             (let rec = rec\<lparr>time := time rec + (Ts link - Ts ev)\<rparr>
              in Inr (prof(StkID ev \<mapsto> rec))))"

text \<open>\<open>pprofIO\<close>, lines 41-51.\<close>

fun pprofIO_loop :: "Event list \<Rightarrow> (uint64 \<rightharpoonup> Record) \<Rightarrow> panic + (uint64 \<rightharpoonup> Record)" where
  "pprofIO_loop [] prof = Inr prof"
| "pprofIO_loop (ev # events) prof =
     (if Event.Type ev \<noteq> EvGoBlockNet \<or> Link ev = None \<or> StkID ev = 0 \<or> length (Stk ev) = 0
      then pprofIO_loop events prof
      else (case accumulate prof ev of
              Inl e \<Rightarrow> Inl e
            | Inr prof' \<Rightarrow> pprofIO_loop events prof'))"

text \<open>
  \<open>pprofBlock\<close>, lines 61-77. The \<open>switch\<close> of lines 63-68 falls through for the five
  listed kinds and continues with the next event for every other kind.
\<close>

fun pprofBlock_switch :: "EvType \<Rightarrow> bool" where
  "pprofBlock_switch EvGoBlockSend = True"
| "pprofBlock_switch EvGoBlockRecv = True"
| "pprofBlock_switch EvGoBlockSelect = True"
| "pprofBlock_switch EvGoBlockSync = True"
| "pprofBlock_switch EvGoBlockCond = True"
| "pprofBlock_switch _ = False"

fun pprofBlock_loop :: "Event list \<Rightarrow> (uint64 \<rightharpoonup> Record) \<Rightarrow> panic + (uint64 \<rightharpoonup> Record)" where
  "pprofBlock_loop [] prof = Inr prof"
| "pprofBlock_loop (ev # events) prof =
     (if \<not> pprofBlock_switch (Event.Type ev)
      then pprofBlock_loop events prof
      else if Link ev = None \<or> StkID ev = 0 \<or> length (Stk ev) = 0
      then pprofBlock_loop events prof
      else (case accumulate prof ev of
              Inl e \<Rightarrow> Inl e
            | Inr prof' \<Rightarrow> pprofBlock_loop events prof'))"

text \<open>\<open>pprofSyscall\<close>, lines 87-97.\<close>

fun pprofSyscall_loop :: "Event list \<Rightarrow> (uint64 \<rightharpoonup> Record) \<Rightarrow> panic + (uint64 \<rightharpoonup> Record)" where
  "pprofSyscall_loop [] prof = Inr prof"
| "pprofSyscall_loop (ev # events) prof =
     (if Event.Type ev \<noteq> EvGoSysCall \<or> Link ev = None \<or> StkID ev = 0 \<or> length (Stk ev) = 0
      then pprofSyscall_loop events prof
      else (case accumulate prof ev of
              Inl e \<Rightarrow> Inl e
            | Inr prof' \<Rightarrow> pprofSyscall_loop events prof'))"

text \<open>\<open>pprofSched\<close>, lines 108-119.\<close>

fun pprofSched_loop :: "Event list \<Rightarrow> (uint64 \<rightharpoonup> Record) \<Rightarrow> panic + (uint64 \<rightharpoonup> Record)" where
  "pprofSched_loop [] prof = Inr prof"
| "pprofSched_loop (ev # events) prof =
     (if (Event.Type ev \<noteq> EvGoUnblock \<and> Event.Type ev \<noteq> EvGoCreate)
          \<or> Link ev = None \<or> StkID ev = 0 \<or> length (Stk ev) = 0
      then pprofSched_loop events prof
      else (case accumulate prof ev of
              Inl e \<Rightarrow> Inl e
            | Inr prof' \<Rightarrow> pprofSched_loop events prof'))"

text \<open>
  The four analyses, as \<open>init\<close> registers them under \<open>/io\<close>, \<open>/block\<close>, \<open>/syscall\<close> and
  \<open>/sched\<close>, and the loop each one runs.
\<close>

datatype analysis = IO | Block | Syscall | Sched

fun aggregate :: "analysis \<Rightarrow> Event list \<Rightarrow> (uint64 \<rightharpoonup> Record) \<Rightarrow> panic + (uint64 \<rightharpoonup> Record)" where
  "aggregate IO events prof = pprofIO_loop events prof"
| "aggregate Block events prof = pprofBlock_loop events prof"
| "aggregate Syscall events prof = pprofSyscall_loop events prof"
| "aggregate Sched events prof = pprofSched_loop events prof"

section \<open>\<open>buildProfile\<close>\<close>

text \<open>
  The state of one call: the profile under construction and the two indexes \<open>locs\<close>
  and \<open>funcs\<close> (lines 160-169).
\<close>

record build_state =
  st_p :: Profile
  st_locs :: "uint64 \<rightharpoonup> Location"
  st_funcs :: "string \<rightharpoonup> Function"

text \<open>Lines 175-185: the function of a frame whose \<open>PC\<close> has no location yet.\<close>

definition resolve_Function :: "build_state \<Rightarrow> Frame \<Rightarrow> Function \<times> build_state" where
  "resolve_Function s frame =
     (case st_funcs s (File frame @ Fn frame) of
        Some fn \<Rightarrow> (fn, s)
      | None \<Rightarrow>
          (let fn = \<lparr>Function.ID = of_nat (length (Profile.Function (st_p s)) + 1),
                     Name = Fn frame,
                     SystemName = Fn frame,
                     Filename = File frame\<rparr>
           in (fn, s\<lparr>st_p := (st_p s)\<lparr>Profile.Function := Profile.Function (st_p s) @ [fn]\<rparr>,
                      st_funcs := (st_funcs s)(File frame @ Fn frame \<mapsto> fn)\<rparr>)))"

text \<open>Lines 173-198: the location of a frame.\<close>

definition resolve_Location :: "build_state \<Rightarrow> Frame \<Rightarrow> Location \<times> build_state" where
  "resolve_Location s frame =
     (case st_locs s (PC frame) of
        Some loc \<Rightarrow> (loc, s)
      | None \<Rightarrow>
          (let (fn, s1) = resolve_Function s frame;
               loc = \<lparr>Location.ID = of_nat (length (Profile.Location (st_p s1)) + 1),
                      Address = PC frame,
                      Location.Line = [\<lparr>Line.Function = fn, Line.Line = Frame.Line frame\<rparr>]\<rparr>
           in (loc, s1\<lparr>st_p := (st_p s1)\<lparr>Profile.Location := Profile.Location (st_p s1) @ [loc]\<rparr>,
                       st_locs := (st_locs s1)(PC frame \<mapsto> loc)\<rparr>)))"

text \<open>Lines 172-200: the loop over the frames of one record, building \<open>sloc\<close>.\<close>

fun stack_loop :: "Frame list \<Rightarrow> Location list \<Rightarrow> build_state \<Rightarrow> Location list \<times> build_state" where
  "stack_loop [] sloc s = (sloc, s)"
| "stack_loop (frame # frames) sloc s =
     (let (loc, s') = resolve_Location s frame
      in stack_loop frames (sloc @ [loc]) s')"

text \<open>
  Lines 170-205: the loop over the records. Go leaves the order in which \<open>range\<close> visits
  a map open, so the loop takes the sequence of entries that \<open>range prof\<close> yields.
\<close>

fun records_loop :: "(uint64 \<times> Record) list \<Rightarrow> build_state \<Rightarrow> build_state" where
  "records_loop [] s = s"
| "records_loop ((k, rec) # entries) s =
     (let (sloc, s') = stack_loop (stk rec) [] s;
          sample = \<lparr>Value = [n rec, time rec], Sample.Location = sloc\<rparr>
      in records_loop entries (s'\<lparr>st_p := (st_p s')\<lparr>Sample := Sample (st_p s') @ [sample]\<rparr>\<rparr>))"

definition new_Profile :: Profile where
  "new_Profile =
     \<lparr>PeriodType = \<lparr>Type = ''trace'', Unit = ''count''\<rparr>,
      Period = 1,
      SampleType = [\<lparr>Type = ''contentions'', Unit = ''count''\<rparr>,
                    \<lparr>Type = ''delay'', Unit = ''nanoseconds''\<rparr>],
      Sample = [],
      Location = [],
      Function = []\<rparr>"

definition init_state :: build_state where
  "init_state = \<lparr>st_p = new_Profile, st_locs = Map.empty, st_funcs = Map.empty\<rparr>"

definition buildProfile :: "(uint64 \<times> Record) list \<Rightarrow> Profile" where
  "buildProfile entries = st_p (records_loop entries init_state)"

text \<open>
  A sequence of entries is one that \<open>range prof\<close> can yield when it holds every entry
  of the map exactly once.
\<close>

definition ranges :: "(uint64 \<rightharpoonup> Record) \<Rightarrow> (uint64 \<times> Record) list \<Rightarrow> bool" where
  "ranges prof entries \<longleftrightarrow> distinct (map fst entries) \<and> map_of entries = prof"

section \<open>The entry points\<close>

text \<open>
  \<open>parseEvents\<close> and \<open>Profile.Write\<close> are defined outside \<open>pprof.go\<close>. An entry point
  takes the result of \<open>parseEvents()\<close> (an error or the events), the order \<open>iter\<close> in
  which the runtime ranges over a map, the method \<open>Write\<close> (it returns \<open>nil\<close> or an
  error and changes what was written to \<open>w\<close>) and the writer \<open>w\<close>. It yields the panic,
  or the returned error together with the writer.
\<close>

definition pprofIO ::
  "'e + Event list \<Rightarrow> ((uint64 \<rightharpoonup> Record) \<Rightarrow> (uint64 \<times> Record) list) \<Rightarrow>
   (Profile \<Rightarrow> 'w \<Rightarrow> 'e option \<times> 'w) \<Rightarrow> 'w \<Rightarrow> panic + ('e option \<times> 'w)" where
  "pprofIO parseEvents iter Write w =
     (case parseEvents of
        Inl err \<Rightarrow> Inr (Some err, w)
      | Inr events \<Rightarrow>
          (case pprofIO_loop events Map.empty of
             Inl pn \<Rightarrow> Inl pn
           | Inr prof \<Rightarrow> Inr (Write (buildProfile (iter prof)) w)))"

definition pprofBlock ::
  "'e + Event list \<Rightarrow> ((uint64 \<rightharpoonup> Record) \<Rightarrow> (uint64 \<times> Record) list) \<Rightarrow>
   (Profile \<Rightarrow> 'w \<Rightarrow> 'e option \<times> 'w) \<Rightarrow> 'w \<Rightarrow> panic + ('e option \<times> 'w)" where
  "pprofBlock parseEvents iter Write w =
     (case parseEvents of
        Inl err \<Rightarrow> Inr (Some err, w)
      | Inr events \<Rightarrow>
          (case pprofBlock_loop events Map.empty of
             Inl pn \<Rightarrow> Inl pn
           | Inr prof \<Rightarrow> Inr (Write (buildProfile (iter prof)) w)))"

definition pprofSyscall ::
  "'e + Event list \<Rightarrow> ((uint64 \<rightharpoonup> Record) \<Rightarrow> (uint64 \<times> Record) list) \<Rightarrow>
   (Profile \<Rightarrow> 'w \<Rightarrow> 'e option \<times> 'w) \<Rightarrow> 'w \<Rightarrow> panic + ('e option \<times> 'w)" where
  "pprofSyscall parseEvents iter Write w =
     (case parseEvents of
        Inl err \<Rightarrow> Inr (Some err, w)
      | Inr events \<Rightarrow>
          (case pprofSyscall_loop events Map.empty of
             Inl pn \<Rightarrow> Inl pn
           | Inr prof \<Rightarrow> Inr (Write (buildProfile (iter prof)) w)))"

definition pprofSched ::
  "'e + Event list \<Rightarrow> ((uint64 \<rightharpoonup> Record) \<Rightarrow> (uint64 \<times> Record) list) \<Rightarrow>
   (Profile \<Rightarrow> 'w \<Rightarrow> 'e option \<times> 'w) \<Rightarrow> 'w \<Rightarrow> panic + ('e option \<times> 'w)" where
  "pprofSched parseEvents iter Write w =
     (case parseEvents of
        Inl err \<Rightarrow> Inr (Some err, w)
      | Inr events \<Rightarrow>
          (case pprofSched_loop events Map.empty of
             Inl pn \<Rightarrow> Inl pn
           | Inr prof \<Rightarrow> Inr (Write (buildProfile (iter prof)) w)))"

fun pprof ::
  "analysis \<Rightarrow> 'e + Event list \<Rightarrow> ((uint64 \<rightharpoonup> Record) \<Rightarrow> (uint64 \<times> Record) list) \<Rightarrow>
   (Profile \<Rightarrow> 'w \<Rightarrow> 'e option \<times> 'w) \<Rightarrow> 'w \<Rightarrow> panic + ('e option \<times> 'w)" where
  "pprof IO = pprofIO"
| "pprof Block = pprofBlock"
| "pprof Syscall = pprofSyscall"
| "pprof Sched = pprofSched"

section \<open>Notions the properties are stated with\<close>

text \<open>
  The table of section 4.1 of the specification, in its words: the kinds each analysis
  matches, and the test for an event to be retained. The loops above do not use them.
\<close>

fun spec_matching :: "analysis \<Rightarrow> EvType set" where
  "spec_matching IO = {EvGoBlockNet}"
| "spec_matching Block = {EvGoBlockSend, EvGoBlockRecv, EvGoBlockSelect, EvGoBlockSync, EvGoBlockCond}"
| "spec_matching Syscall = {EvGoSysCall}"
| "spec_matching Sched = {EvGoUnblock, EvGoCreate}"

definition spec_retained :: "analysis \<Rightarrow> Event \<Rightarrow> bool" where
  "spec_retained kind ev \<longleftrightarrow>
     Event.Type ev \<in> spec_matching kind \<and> Link ev \<noteq> None \<and> StkID ev \<noteq> 0 \<and> Stk ev \<noteq> []"

text \<open>
  The duration \<open>ev.Link.Ts - ev.Ts\<close> of an event (an \<open>int64\<close> subtraction; 0 for an
  event without link, which no loop keeps), and the map after the five statements of
  \<open>accumulate\<close> when they do not panic.
\<close>

definition elapsed :: "Event \<Rightarrow> int64" where
  "elapsed ev = (case Link ev of None \<Rightarrow> 0 | Some link \<Rightarrow> Ts link - Ts ev)"

definition merge_event :: "(uint64 \<rightharpoonup> Record) \<Rightarrow> Event \<Rightarrow> (uint64 \<rightharpoonup> Record)" where
  "merge_event prof ev =
     prof(StkID ev \<mapsto>
       (index_Record prof (StkID ev))
         \<lparr>stk := Stk ev,
          n := n (index_Record prof (StkID ev)) + 1,
          time := time (index_Record prof (StkID ev)) + elapsed ev\<rparr>)"


text \<open>
  Sample data: the two frames of the example of section 8 of the specification, and
  events that block on the network with stack identity 7.
\<close>

definition frame_a :: Frame where
  "frame_a = \<lparr>PC = 4096, Fn = ''f'', File = ''a.go'', Frame.Line = 10\<rparr>"

definition frame_b :: Frame where
  "frame_b = \<lparr>PC = 8192, Fn = ''g'', File = ''b.go'', Frame.Line = 20\<rparr>"

definition wake :: "int64 \<Rightarrow> Event" where
  "wake ts = Event EvGoUnblock ts 0 [] None"

definition net_1 :: Event where
  "net_1 = Event EvGoBlockNet 1000 7 [frame_a, frame_b] (Some (wake 1100))"

definition net_2 :: Event where
  "net_2 = Event EvGoBlockNet 2000 7 [frame_a, frame_b] (Some (wake 2150))"

definition net_unlinked :: Event where
  "net_unlinked = Event EvGoBlockNet 4000 7 [frame_a, frame_b] None"

text \<open>
  The frames of all records in the order \<open>buildProfile\<close> walks them, the elements of a
  list that are the first with their value under \<open>f\<close> (in the order of the list), and the
  key of the index \<open>funcs\<close>.
\<close>

definition frames_of :: "(uint64 \<times> Record) list \<Rightarrow> Frame list" where
  "frames_of entries = concat (map (\<lambda>(k, rec). stk rec) entries)"

definition firsts_by :: "('a \<Rightarrow> 'b) \<Rightarrow> 'a list \<Rightarrow> 'a list" where
  "firsts_by f xs = fold (\<lambda>x acc. if f x \<in> f ` set acc then acc else acc @ [x]) xs []"

definition frame_key :: "Frame \<Rightarrow> string" where
  "frame_key frame = File frame @ Fn frame"

text \<open>
  What holds of the state of \<open>buildProfile\<close> after the frames \<open>seen\<close>: the two lists
  and the domains of the two indexes; what an entry of \<open>funcs\<close> and of \<open>locs\<close> is; and
  the IDs.
\<close>

definition lists_inv :: "Frame list \<Rightarrow> build_state \<Rightarrow> bool" where
  "lists_inv seen s \<longleftrightarrow>
     map Address (Profile.Location (st_p s)) = map PC (firsts_by PC seen)
   \<and> dom (st_locs s) = PC ` set seen
   \<and> map (\<lambda>fn. (Filename fn, Name fn)) (Profile.Function (st_p s))
       = map (\<lambda>frame. (File frame, Fn frame)) (firsts_by frame_key (firsts_by PC seen))
   \<and> dom (st_funcs s) = frame_key ` set (firsts_by PC seen)"

definition funcs_inv :: "Frame list \<Rightarrow> build_state \<Rightarrow> bool" where
  "funcs_inv seen s \<longleftrightarrow>
     (\<forall>key fn. st_funcs s key = Some fn \<longrightarrow>
         fn \<in> set (Profile.Function (st_p s)) \<and> SystemName fn = Name fn
       \<and> (\<exists>h \<in> set seen. frame_key h = key \<and> Filename fn = File h \<and> Name fn = Fn h))"

definition locs_inv :: "Frame list \<Rightarrow> build_state \<Rightarrow> bool" where
  "locs_inv seen s \<longleftrightarrow>
     (\<forall>pc loc. st_locs s pc = Some loc \<longrightarrow>
         Address loc = pc \<and> loc \<in> set (Profile.Location (st_p s))
       \<and> (\<exists>g fn. find (\<lambda>frame. PC frame = pc) seen = Some g
              \<and> Location.Line loc = [\<lparr>Line.Function = fn, Line.Line = Frame.Line g\<rparr>]
              \<and> st_funcs s (frame_key g) = Some fn))"

definition ids_inv :: "build_state \<Rightarrow> bool" where
  "ids_inv s \<longleftrightarrow>
     (\<forall>i < length (Profile.Function (st_p s)).
        Function.ID (Profile.Function (st_p s) ! i) = of_nat (i + 1))
   \<and> (\<forall>i < length (Profile.Location (st_p s)).
        Location.ID (Profile.Location (st_p s) ! i) = of_nat (i + 1))"

definition build_inv :: "Frame list \<Rightarrow> build_state \<Rightarrow> bool" where
  "build_inv seen s \<longleftrightarrow> lists_inv seen s \<and> funcs_inv seen s \<and> locs_inv seen s \<and> ids_inv s"

text \<open>
  More sample data: a frame with the \<open>PC\<close> of \<open>frame_a\<close> and another file, function and
  line; a syscall whose link is 60 ns earlier than the event; a \<open>Write\<close> that fails; an
  iteration order for maps whose only key is 7; the record of the example of the
  specification and one whose two frames share their \<open>PC\<close>; and a \<open>Write\<close> that succeeds,
  appending a mark for each sample.
\<close>

definition frame_a2 :: Frame where
  "frame_a2 = \<lparr>PC = 4096, Fn = ''h'', File = ''c.go'', Frame.Line = 30\<rparr>"


definition failing_Write :: "Profile \<Rightarrow> string \<Rightarrow> string option \<times> string" where
  "failing_Write p w = (Some ''short write'', w)"

definition iter_single :: "(uint64 \<rightharpoonup> Record) \<Rightarrow> (uint64 \<times> Record) list" where
  "iter_single prof = (case prof 7 of None \<Rightarrow> [] | Some rec \<Rightarrow> [(7, rec)])"

definition rec_7 :: Record where
  "rec_7 = \<lparr>stk = [frame_a, frame_b], n = 2, time = 250\<rparr>"

definition rec_clash :: Record where
  "rec_clash = \<lparr>stk = [frame_a, frame_a2], n = 1, time = 100\<rparr>"

definition sample_marks_Write :: "Profile \<Rightarrow> string \<Rightarrow> string option \<times> string" where
  "sample_marks_Write p w = (None, w @ replicate (length (Sample p)) CHR ''s'')"

text \<open>
  The conditions of the claims as amended: frames of equal \<open>PC\<close> have the same file and
  function name (and line); and frames with different files or function names have
  different concatenations \<open>File + Fn\<close>.
\<close>

definition same_pc_same_function :: "Frame list \<Rightarrow> bool" where
  "same_pc_same_function frames \<longleftrightarrow>
     (\<forall>f \<in> set frames. \<forall>g \<in> set frames. PC f = PC g \<longrightarrow> File f = File g \<and> Fn f = Fn g)"

definition same_pc_same_frame :: "Frame list \<Rightarrow> bool" where
  "same_pc_same_frame frames \<longleftrightarrow>
     (\<forall>f \<in> set frames. \<forall>g \<in> set frames. PC f = PC g \<longrightarrow>
        File f = File g \<and> Fn f = Fn g \<and> Frame.Line f = Frame.Line g)"

definition keys_separate :: "Frame list \<Rightarrow> bool" where
  "keys_separate frames \<longleftrightarrow>
     (\<forall>f \<in> set frames. \<forall>g \<in> set frames.
        File f @ Fn f = File g @ Fn g \<longrightarrow> File f = File g \<and> Fn f = Fn g)"

text \<open>
  Reading a location back: its address with the file, name and line of its single
  \<open>Line\<close> entry. \<open>frame_tuple\<close> is what a frame should be read back as.
\<close>

definition read_Location :: "Location \<Rightarrow> (uint64 \<times> string \<times> string \<times> int64) option" where
  "read_Location loc =
     (case Location.Line loc of
        [line] \<Rightarrow> Some (Address loc, Filename (Line.Function line), Name (Line.Function line),
                        Line.Line line)
      | _ \<Rightarrow> None)"

definition frame_tuple :: "Frame \<Rightarrow> uint64 \<times> string \<times> string \<times> int64" where
  "frame_tuple frame = (PC frame, File frame, Fn frame, Frame.Line frame)"

text \<open>The builder after it has resolved \<open>frame_a\<close>, and the location it made for it.\<close>

definition loc_a :: Location where
  "loc_a = fst (resolve_Location init_state frame_a)"

definition state_after_a :: build_state where
  "state_after_a = snd (resolve_Location init_state frame_a)"

section \<open>Aggregation\<close>

lemma accumulate_linked:
  "Link ev \<noteq> None \<Longrightarrow> accumulate prof ev = Inr (merge_event prof ev)"
  by (auto simp: accumulate_def merge_event_def elapsed_def Let_def)

lemma aggregate_Nil: "aggregate kind [] prof = Inr prof"
  by (cases kind) simp_all

lemma aggregate_Cons:
  "aggregate kind (ev # events) prof =
     (if spec_retained kind ev then aggregate kind events (merge_event prof ev)
      else aggregate kind events prof)"
proof (cases "Link ev = None")
  case True
  then show ?thesis by (cases kind) (simp_all add: spec_retained_def)
next
  case False
  then have acc: "accumulate prof ev = Inr (merge_event prof ev)"
    by (rule accumulate_linked)
  show ?thesis
    by (cases kind; cases "Event.Type ev") (simp_all add: spec_retained_def acc False)
qed

lemma aggregate_fold:
  "aggregate kind events prof =
     Inr (fold (\<lambda>ev m. merge_event m ev) (filter (spec_retained kind) events) prof)"
proof (induction events arbitrary: prof)
  case Nil
  show ?case by (simp add: aggregate_Nil)
next
  case (Cons ev events)
  show ?case by (simp add: aggregate_Cons Cons.IH del: aggregate.simps)
qed

lemma index_merge_event:
  "index_Record (merge_event prof ev) k =
     (if StkID ev = k
      then (index_Record prof k)\<lparr>stk := Stk ev, n := n (index_Record prof k) + 1,
             time := time (index_Record prof k) + elapsed ev\<rparr>
      else index_Record prof k)"
  by (simp add: merge_event_def index_Record_def)

lemma dom_merge_event: "dom (merge_event prof ev) = insert (StkID ev) (dom prof)"
  by (simp add: merge_event_def)

lemma dom_fold_merge:
  "dom (fold (\<lambda>ev m. merge_event m ev) evs prof) = dom prof \<union> StkID ` set evs"
  by (induction evs arbitrary: prof) (auto simp: dom_merge_event)

lemma n_fold_merge:
  "n (index_Record (fold (\<lambda>ev m. merge_event m ev) evs prof) k) =
     n (index_Record prof k) + of_nat (length (filter (\<lambda>ev. StkID ev = k) evs))"
  by (induction evs arbitrary: prof) (simp_all add: index_merge_event)

lemma time_fold_merge:
  "time (index_Record (fold (\<lambda>ev m. merge_event m ev) evs prof) k) =
     time (index_Record prof k) + sum_list (map elapsed (filter (\<lambda>ev. StkID ev = k) evs))"
  by (induction evs arbitrary: prof) (simp_all add: index_merge_event)


lemma index_Record_Some: "prof k = Some r \<Longrightarrow> index_Record prof k = r"
  by (simp add: index_Record_def)

lemma index_Record_empty: "index_Record Map.empty k = \<lparr>stk = [], n = 0, time = 0\<rparr>"
  by (simp add: index_Record_def)

lemma merge_event_changes: "merge_event prof ev \<noteq> prof"
proof
  assume "merge_event prof ev = prof"
  then have "n (index_Record (merge_event prof ev) (StkID ev)) = n (index_Record prof (StkID ev))"
    by simp
  then show False by (simp add: index_merge_event)
qed

text \<open>
  The sum of durations is computed in \<open>int64\<close>. Read as integers, it is the sum of the
  signed durations whenever that sum is in the range of \<open>int64\<close>.
\<close>

lemma sum_elapsed_integer:
  assumes "- (2 ^ 63) \<le> (\<Sum>ev\<leftarrow>evs. sint (elapsed ev))"
    and "(\<Sum>ev\<leftarrow>evs. sint (elapsed ev)) < 2 ^ 63"
  shows "sint (sum_list (map elapsed evs)) = (\<Sum>ev\<leftarrow>evs. sint (elapsed ev))"
proof -
  have "sum_list (map elapsed evs) = word_of_int (\<Sum>ev\<leftarrow>evs. sint (elapsed ev))"
    by (induction evs) simp_all
  then have "sint (sum_list (map elapsed evs)) = sint (word_of_int (\<Sum>ev\<leftarrow>evs. sint (elapsed ev)) :: int64)"
    by simp
  also have "\<dots> = (\<Sum>ev\<leftarrow>evs. sint (elapsed ev))"
    using assms by (simp add: sint_sbintrunc' signed_take_bit_int_eq_self)
  finally show ?thesis .
qed

text \<open>
  Claim C1. For each of the four analyses, the loop aggregates an event exactly when
  its kind is in the analysis's row of the table, its link is not nil, its stack
  identity is not 0 and its stack is not empty: for such an event the five statements
  of \<open>accumulate\<close> run without panic and change the map (the record of its stack
  identity is updated), any other event leaves the map as it is, and the loop computes
  the same map on the whole sequence as on its retained events alone.
\<close>

theorem filtering_is_exact:
  "aggregate kind (ev # events) prof =
     (if spec_retained kind ev then aggregate kind events (merge_event prof ev)
      else aggregate kind events prof)
   \<and> (spec_retained kind ev \<longrightarrow> accumulate prof ev = Inr (merge_event prof ev))
   \<and> merge_event prof ev \<noteq> prof
   \<and> aggregate kind events prof = aggregate kind (filter (spec_retained kind) events) prof"
proof -
  have "filter (spec_retained kind) (filter (spec_retained kind) events)
          = filter (spec_retained kind) events"
    by simp
  then have "aggregate kind events prof = aggregate kind (filter (spec_retained kind) events) prof"
    by (simp only: aggregate_fold [of kind events] aggregate_fold [of kind "filter (spec_retained kind) events"])
  moreover have "accumulate prof ev = Inr (merge_event prof ev)" if "spec_retained kind ev"
    using that by (simp add: accumulate_linked spec_retained_def)
  ultimately show ?thesis
    using aggregate_Cons [of kind ev events prof] merge_event_changes [of prof ev] by blast
qed

text \<open>
  On the sample data: a linked network block is aggregated by the I/O analysis, the
  unlinked one is not, and the syscall analysis keeps neither.
\<close>

theorem filtering_is_exact_witness:
  "spec_retained IO net_1 \<and> \<not> spec_retained IO net_unlinked \<and> \<not> spec_retained Syscall net_1
   \<and> aggregate IO [net_1, net_unlinked] Map.empty = Inr (merge_event Map.empty net_1)
   \<and> aggregate Syscall [net_1, net_unlinked] Map.empty = Inr Map.empty
   \<and> merge_event Map.empty net_1 7 = Some \<lparr>stk = [frame_a, frame_b], n = 1, time = 100\<rparr>"
proof -
  have a: "spec_retained IO net_1"
    by (simp add: spec_retained_def net_1_def)
  have b: "\<not> spec_retained IO net_unlinked"
    by (simp add: spec_retained_def net_unlinked_def)
  have c: "\<not> spec_retained Syscall net_1"
    by (simp add: spec_retained_def net_1_def)
  have d: "\<not> spec_retained Syscall net_unlinked"
    by (simp add: spec_retained_def net_unlinked_def)
  have e: "merge_event Map.empty net_1 7 = Some \<lparr>stk = [frame_a, frame_b], n = 1, time = 100\<rparr>"
    by (simp add: merge_event_def index_Record_def elapsed_def net_1_def wake_def)
  have "aggregate IO [net_1, net_unlinked] Map.empty = Inr (merge_event Map.empty net_1)"
    using filtering_is_exact [of IO net_1 "[net_unlinked]" Map.empty]
      filtering_is_exact [of IO net_unlinked "[]" "merge_event Map.empty net_1"] a b
    by (simp add: aggregate_Nil del: aggregate.simps)
  moreover have "aggregate Syscall [net_1, net_unlinked] Map.empty = Inr Map.empty"
    using filtering_is_exact [of Syscall net_1 "[net_unlinked]" Map.empty]
      filtering_is_exact [of Syscall net_unlinked "[]" Map.empty] c d
    by (simp add: aggregate_Nil del: aggregate.simps)
  ultimately show ?thesis using a b c e by simp
qed

text \<open>
  Claim C2. For every event sequence and every analysis, the loop returns a map whose
  keys are exactly the stack identities of the retained events, none of them 0, so
  there is one \<open>Record\<close> per distinct identity. The count of a \<open>Record\<close> is the number
  of retained events with its identity and its time is the sum of their durations
  \<open>ev.Link.Ts - ev.Ts\<close>, both in Go's 64-bit arithmetic, as the fields are declared.
\<close>

theorem one_Record_per_stack:
  "\<exists>prof. aggregate kind events Map.empty = Inr prof
     \<and> dom prof = StkID ` {ev \<in> set events. spec_retained kind ev}
     \<and> 0 \<notin> dom prof
     \<and> card (dom prof) = card (StkID ` {ev \<in> set events. spec_retained kind ev})
     \<and> (\<forall>k r. prof k = Some r \<longrightarrow>
           n r = of_nat (length (filter (\<lambda>ev. spec_retained kind ev \<and> StkID ev = k) events))
         \<and> time r = sum_list (map elapsed (filter (\<lambda>ev. spec_retained kind ev \<and> StkID ev = k) events)))"
proof -
  let ?kept = "filter (spec_retained kind) events"
  let ?prof = "fold (\<lambda>ev m. merge_event m ev) ?kept Map.empty"
  have sel: "filter (\<lambda>ev. StkID ev = k) ?kept
               = filter (\<lambda>ev. spec_retained kind ev \<and> StkID ev = k) events" for k
    by (simp add: conj_commute)
  have run: "aggregate kind events Map.empty = Inr ?prof"
    by (rule aggregate_fold)
  have keys: "dom ?prof = StkID ` {ev \<in> set events. spec_retained kind ev}"
    by (simp add: dom_fold_merge)
  have nonzero: "0 \<notin> dom ?prof"
    unfolding keys by (auto simp: spec_retained_def)
  have vals: "n r = of_nat (length (filter (\<lambda>ev. spec_retained kind ev \<and> StkID ev = k) events))
         \<and> time r = sum_list (map elapsed (filter (\<lambda>ev. spec_retained kind ev \<and> StkID ev = k) events))"
    if "?prof k = Some r" for k r
  proof -
    have r: "index_Record ?prof k = r"
      using that by (rule index_Record_Some)
    have "n (index_Record ?prof k) = of_nat (length (filter (\<lambda>ev. StkID ev = k) ?kept))"
      by (simp only: n_fold_merge index_Record_empty) simp
    moreover have "time (index_Record ?prof k) = sum_list (map elapsed (filter (\<lambda>ev. StkID ev = k) ?kept))"
      by (simp only: time_fold_merge index_Record_empty) simp
    ultimately show ?thesis
      unfolding r sel by simp
  qed
  show ?thesis
    using run keys nonzero vals by (intro exI [of _ ?prof]) simp
qed

text \<open>
  The example of the specification: two network blocks with stack identity 7 and
  durations 100 and 150 give one \<open>Record\<close> with count 2 and time 250.
\<close>

theorem one_Record_per_stack_witness:
  "\<exists>prof r. aggregate IO [net_1, net_2] Map.empty = Inr prof \<and> dom prof = {7}
     \<and> prof 7 = Some r \<and> n r = 2 \<and> time r = 250"
proof -
  have kept: "{ev \<in> set [net_1, net_2]. spec_retained IO ev} = {net_1, net_2}"
    by (auto simp: spec_retained_def net_1_def net_2_def)
  have sel: "filter (\<lambda>ev. spec_retained IO ev \<and> StkID ev = 7) [net_1, net_2] = [net_1, net_2]"
    by (simp add: spec_retained_def net_1_def net_2_def)
  obtain prof where run: "aggregate IO [net_1, net_2] Map.empty = Inr prof"
    and keys: "dom prof = StkID ` {ev \<in> set [net_1, net_2]. spec_retained IO ev}"
    and vals: "\<forall>k r. prof k = Some r \<longrightarrow>
           n r = of_nat (length (filter (\<lambda>ev. spec_retained IO ev \<and> StkID ev = k) [net_1, net_2]))
         \<and> time r = sum_list (map elapsed (filter (\<lambda>ev. spec_retained IO ev \<and> StkID ev = k) [net_1, net_2]))"
    using one_Record_per_stack [of IO "[net_1, net_2]"] by blast
  have d: "dom prof = {7}"
    unfolding keys kept by (simp add: net_1_def net_2_def)
  then obtain r where r: "prof 7 = Some r"
    by blast
  from vals r have "n r = of_nat (length (filter (\<lambda>ev. spec_retained IO ev \<and> StkID ev = 7) [net_1, net_2]))
         \<and> time r = sum_list (map elapsed (filter (\<lambda>ev. spec_retained IO ev \<and> StkID ev = 7) [net_1, net_2]))"
    by blast
  then have "n r = of_nat (length [net_1, net_2]) \<and> time r = sum_list (map elapsed [net_1, net_2])"
    by (simp only: sel)
  then have "n r = 2 \<and> time r = 250"
    by (simp add: elapsed_def net_1_def net_2_def wake_def)
  then show ?thesis
    using run d r by blast
qed





section \<open>The profile builder\<close>

lemma firsts_by_Nil: "firsts_by f [] = []"
  by (simp add: firsts_by_def)

lemma firsts_by_snoc:
  "firsts_by f (xs @ [x]) =
     (if f x \<in> f ` set (firsts_by f xs) then firsts_by f xs else firsts_by f xs @ [x])"
  by (simp add: firsts_by_def)

lemma set_firsts_by_subset: "set (firsts_by f xs) \<subseteq> set xs"
  by (induction xs rule: rev_induct) (auto simp: firsts_by_Nil firsts_by_snoc)

lemma image_firsts_by: "f ` set (firsts_by f xs) = f ` set xs"
  by (induction xs rule: rev_induct) (auto simp: firsts_by_Nil firsts_by_snoc)

lemma distinct_firsts_by: "distinct (map f (firsts_by f xs))"
  by (induction xs rule: rev_induct) (auto simp: firsts_by_Nil firsts_by_snoc)

lemma length_firsts_by: "length (firsts_by f xs) = card (f ` set xs)"
proof -
  have "length (firsts_by f xs) = length (map f (firsts_by f xs))"
    by simp
  also have "\<dots> = card (set (map f (firsts_by f xs)))"
    using distinct_firsts_by [of f xs] by (simp only: distinct_card)
  also have "\<dots> = card (f ` set xs)"
    by (simp add: image_firsts_by)
  finally show ?thesis .
qed

lemma find_snoc:
  "find P (xs @ [x]) =
     (case find P xs of Some y \<Rightarrow> Some y | None \<Rightarrow> if P x then Some x else None)"
  by (induction xs) auto

lemma find_None_image: "find (\<lambda>frame. PC frame = pc) xs = None \<longleftrightarrow> pc \<notin> PC ` set xs"
  by (auto simp: find_None_iff)

lemma find_snoc_Some: "find P xs = Some g \<Longrightarrow> find P (xs @ [x]) = Some g"
  by (simp add: find_snoc)

lemma find_snoc_fresh:
  "pc \<notin> PC ` set xs \<Longrightarrow> PC x = pc \<Longrightarrow> find (\<lambda>frame. PC frame = pc) (xs @ [x]) = Some x"
  using find_None_image [of pc xs] by (simp add: find_snoc)

lemma lists_inv_init: "lists_inv [] init_state"
  by (simp add: lists_inv_def init_state_def new_Profile_def firsts_by_Nil)

lemma funcs_inv_init: "funcs_inv [] init_state"
  by (simp add: funcs_inv_def init_state_def)

lemma locs_inv_init: "locs_inv [] init_state"
  by (simp add: locs_inv_def init_state_def)

subsection \<open>A frame whose PC has a location\<close>

lemma resolve_Location_hit:
  "st_locs s (PC frame) = Some loc \<Longrightarrow> resolve_Location s frame = (loc, s)"
  by (simp add: resolve_Location_def)

lemma lists_inv_hit:
  assumes "lists_inv seen s" and "st_locs s (PC frame) = Some loc"
  shows "lists_inv (seen @ [frame]) s"
proof -
  have "PC frame \<in> dom (st_locs s)"
    using assms(2) by blast
  then have mem: "PC frame \<in> PC ` set seen"
    using assms(1) by (simp add: lists_inv_def)
  then have same: "firsts_by PC (seen @ [frame]) = firsts_by PC seen"
    by (simp add: firsts_by_snoc image_firsts_by)
  have ins: "PC ` set (seen @ [frame]) = PC ` set seen"
    using mem by auto
  show ?thesis
    using assms(1) unfolding lists_inv_def same ins by simp
qed

lemma funcs_inv_seen: "funcs_inv seen s \<Longrightarrow> funcs_inv (seen @ [frame]) s"
  unfolding funcs_inv_def by fastforce

lemma locs_inv_seen: "locs_inv seen s \<Longrightarrow> locs_inv (seen @ [frame]) s"
  unfolding locs_inv_def by (fastforce intro: find_snoc_Some)

subsection \<open>A frame whose PC has no location yet\<close>

lemma resolve_Function_other:
  "st_locs (snd (resolve_Function s frame)) = st_locs s"
  "Profile.Location (st_p (snd (resolve_Function s frame))) = Profile.Location (st_p s)"
  "Sample (st_p (snd (resolve_Function s frame))) = Sample (st_p s)"
  "PeriodType (st_p (snd (resolve_Function s frame))) = PeriodType (st_p s)"
  "Period (st_p (snd (resolve_Function s frame))) = Period (st_p s)"
  "SampleType (st_p (snd (resolve_Function s frame))) = SampleType (st_p s)"
  by (simp_all add: resolve_Function_def Let_def split: option.split)

lemma resolve_Function_index:
  "st_funcs (snd (resolve_Function s frame)) (frame_key frame) = Some (fst (resolve_Function s frame))"
  by (simp add: resolve_Function_def frame_key_def Let_def split: option.split)

lemma resolve_Function_mono:
  "st_funcs s key = Some fn \<Longrightarrow> st_funcs (snd (resolve_Function s frame)) key = Some fn"
  by (auto simp: resolve_Function_def Let_def split: option.split)

lemma resolve_Function_dom:
  "dom (st_funcs (snd (resolve_Function s frame))) = insert (frame_key frame) (dom (st_funcs s))"
  by (auto simp: resolve_Function_def frame_key_def Let_def split: option.splits)

lemma resolve_Function_list:
  "Profile.Function (st_p (snd (resolve_Function s frame))) =
     (if frame_key frame \<in> dom (st_funcs s) then Profile.Function (st_p s)
      else Profile.Function (st_p s) @
             [\<lparr>Function.ID = of_nat (length (Profile.Function (st_p s)) + 1),
               Name = Fn frame, SystemName = Fn frame, Filename = File frame\<rparr>])"
  by (auto simp: resolve_Function_def frame_key_def Let_def split: option.splits)

lemma funcs_inv_resolve_Function:
  assumes "funcs_inv seen s"
  shows "funcs_inv (seen @ [frame]) (snd (resolve_Function s frame))"
proof (cases "st_funcs s (File frame @ Fn frame)")
  case None
  let ?fn = "\<lparr>Function.ID = of_nat (length (Profile.Function (st_p s)) + 1),
               Name = Fn frame, SystemName = Fn frame, Filename = File frame\<rparr>"
  let ?s1 = "snd (resolve_Function s frame)"
  have funcs: "st_funcs ?s1 = (st_funcs s)(frame_key frame \<mapsto> ?fn)"
    and list: "Profile.Function (st_p ?s1) = Profile.Function (st_p s) @ [?fn]"
    using None by (simp_all add: resolve_Function_def Let_def frame_key_def)
  show ?thesis
    unfolding funcs_inv_def
  proof (intro allI impI)
    fix key fn
    assume look: "st_funcs ?s1 key = Some fn"
    show "fn \<in> set (Profile.Function (st_p ?s1)) \<and> SystemName fn = Name fn
       \<and> (\<exists>h \<in> set (seen @ [frame]). frame_key h = key \<and> Filename fn = File h \<and> Name fn = Fn h)"
    proof (cases "key = frame_key frame")
      case True
      then have "fn = ?fn"
        using look funcs by simp
      then show ?thesis
        using True list by simp
    next
      case False
      then have "st_funcs s key = Some fn"
        using look funcs by simp
      then have "fn \<in> set (Profile.Function (st_p s)) \<and> SystemName fn = Name fn
         \<and> (\<exists>h \<in> set seen. frame_key h = key \<and> Filename fn = File h \<and> Name fn = Fn h)"
        using assms unfolding funcs_inv_def by blast
      then show ?thesis
        using list by auto
    qed
  qed
next
  case (Some fn)
  then show ?thesis
    using funcs_inv_seen [OF assms, of frame] by (simp add: resolve_Function_def)
qed

lemma resolve_Location_miss:
  assumes "st_locs s (PC frame) = None"
  shows "resolve_Location s frame =
     (let fn = fst (resolve_Function s frame);
          s1 = snd (resolve_Function s frame);
          loc = \<lparr>Location.ID = of_nat (length (Profile.Location (st_p s)) + 1),
                 Address = PC frame,
                 Location.Line = [\<lparr>Line.Function = fn, Line.Line = Frame.Line frame\<rparr>]\<rparr>
      in (loc, s1\<lparr>st_p := (st_p s1)\<lparr>Profile.Location := Profile.Location (st_p s) @ [loc]\<rparr>,
                  st_locs := (st_locs s)(PC frame \<mapsto> loc)\<rparr>))"
  using assms
  by (simp add: resolve_Location_def Let_def split_beta resolve_Function_other)

lemma lists_inv_miss:
  assumes "lists_inv seen s" and "st_locs s (PC frame) = None"
  shows "lists_inv (seen @ [frame]) (snd (resolve_Location s frame))"
proof -
  have "PC frame \<notin> dom (st_locs s)"
    using assms(2) by blast
  then have fresh: "PC frame \<notin> PC ` set seen"
    using assms(1) by (simp add: lists_inv_def)
  then have grow: "firsts_by PC (seen @ [frame]) = firsts_by PC seen @ [frame]"
    by (simp add: firsts_by_snoc image_firsts_by)
  have keys: "dom (st_funcs s) = frame_key ` set (firsts_by PC seen)"
    and fs: "map (\<lambda>fn. (Filename fn, Name fn)) (Profile.Function (st_p s))
       = map (\<lambda>frame. (File frame, Fn frame)) (firsts_by frame_key (firsts_by PC seen))"
    and ls: "map Address (Profile.Location (st_p s)) = map PC (firsts_by PC seen)"
    and ld: "dom (st_locs s) = PC ` set seen"
    using assms(1) by (simp_all add: lists_inv_def)
  have a: "map Address (Profile.Location (st_p (snd (resolve_Location s frame))))
             = map PC (firsts_by PC (seen @ [frame]))"
    by (simp add: resolve_Location_miss [OF assms(2)] Let_def grow ls)
  have b: "dom (st_locs (snd (resolve_Location s frame))) = PC ` set (seen @ [frame])"
    by (simp add: resolve_Location_miss [OF assms(2)] Let_def ld)
  have c: "map (\<lambda>fn. (Filename fn, Name fn)) (Profile.Function (st_p (snd (resolve_Location s frame))))
       = map (\<lambda>frame. (File frame, Fn frame)) (firsts_by frame_key (firsts_by PC (seen @ [frame])))"
    by (simp add: resolve_Location_miss [OF assms(2)] Let_def grow resolve_Function_list
        firsts_by_snoc [of frame_key] image_firsts_by [of frame_key] keys fs)
  have d: "dom (st_funcs (snd (resolve_Location s frame))) = frame_key ` set (firsts_by PC (seen @ [frame]))"
    by (simp add: resolve_Location_miss [OF assms(2)] Let_def grow resolve_Function_dom keys)
  show ?thesis
    unfolding lists_inv_def using a b c d by blast
qed

lemma funcs_inv_miss:
  assumes "funcs_inv seen s" and "st_locs s (PC frame) = None"
  shows "funcs_inv (seen @ [frame]) (snd (resolve_Location s frame))"
  using funcs_inv_resolve_Function [OF assms(1), of frame]
  by (simp add: resolve_Location_miss [OF assms(2)] Let_def funcs_inv_def)

lemma locs_inv_miss:
  assumes "locs_inv seen s" and "lists_inv seen s" and "st_locs s (PC frame) = None"
  shows "locs_inv (seen @ [frame]) (snd (resolve_Location s frame))"
proof -
  let ?fn = "fst (resolve_Function s frame)"
  let ?s1 = "snd (resolve_Function s frame)"
  let ?loc = "\<lparr>Location.ID = of_nat (length (Profile.Location (st_p s)) + 1),
                 Address = PC frame,
                 Location.Line = [\<lparr>Line.Function = ?fn, Line.Line = Frame.Line frame\<rparr>]\<rparr>"
  let ?s2 = "snd (resolve_Location s frame)"
  have locs: "st_locs ?s2 = (st_locs s)(PC frame \<mapsto> ?loc)"
    and list: "Profile.Location (st_p ?s2) = Profile.Location (st_p s) @ [?loc]"
    and funcs: "st_funcs ?s2 = st_funcs ?s1"
    by (simp_all add: resolve_Location_miss [OF assms(3)] Let_def)
  have "PC frame \<notin> dom (st_locs s)"
    using assms(3) by blast
  then have fresh: "PC frame \<notin> PC ` set seen"
    using assms(2) by (simp add: lists_inv_def)
  show ?thesis
    unfolding locs_inv_def
  proof (intro allI impI)
    fix pc loc
    assume look: "st_locs ?s2 pc = Some loc"
    show "Address loc = pc \<and> loc \<in> set (Profile.Location (st_p ?s2))
       \<and> (\<exists>g fn. find (\<lambda>frame. PC frame = pc) (seen @ [frame]) = Some g
              \<and> Location.Line loc = [\<lparr>Line.Function = fn, Line.Line = Frame.Line g\<rparr>]
              \<and> st_funcs ?s2 (frame_key g) = Some fn)"
    proof (cases "pc = PC frame")
      case True
      then have "loc = ?loc"
        using look locs by simp
      moreover have "find (\<lambda>x. PC x = pc) (seen @ [frame]) = Some frame"
        using fresh True by (simp add: find_snoc_fresh)
      moreover have "st_funcs ?s2 (frame_key frame) = Some ?fn"
        unfolding funcs by (rule resolve_Function_index)
      ultimately show ?thesis
        using True list by simp
    next
      case False
      then have "st_locs s pc = Some loc"
        using look locs by simp
      then obtain g fn where old: "Address loc = pc" "loc \<in> set (Profile.Location (st_p s))"
        "find (\<lambda>frame. PC frame = pc) seen = Some g"
        "Location.Line loc = [\<lparr>Line.Function = fn, Line.Line = Frame.Line g\<rparr>]"
        "st_funcs s (frame_key g) = Some fn"
        using assms(1) unfolding locs_inv_def by blast
      have "find (\<lambda>frame. PC frame = pc) (seen @ [frame]) = Some g"
        using old(3) by (rule find_snoc_Some)
      moreover have "st_funcs ?s2 (frame_key g) = Some fn"
        unfolding funcs using old(5) by (rule resolve_Function_mono)
      ultimately show ?thesis
        using old(1,2,4) list by simp
    qed
  qed
qed

subsection \<open>The invariant along the loops\<close>

lemma ids_inv_init: "ids_inv init_state"
  by (simp add: ids_inv_def init_state_def new_Profile_def)

lemma ids_inv_resolve_Function: "ids_inv s \<Longrightarrow> ids_inv (snd (resolve_Function s frame))"
  by (auto simp: ids_inv_def resolve_Function_list resolve_Function_other nth_append less_Suc_eq)

lemma ids_inv_resolve_Location:
  assumes "ids_inv s"
  shows "ids_inv (snd (resolve_Location s frame))"
proof (cases "st_locs s (PC frame)")
  case None
  show ?thesis
    using ids_inv_resolve_Function [OF assms, of frame]
    by (auto simp: resolve_Location_miss [OF None] Let_def ids_inv_def resolve_Function_other
        nth_append less_Suc_eq)
next
  case (Some loc)
  then show ?thesis
    using assms by (simp add: resolve_Location_hit)
qed

lemma build_inv_init: "build_inv [] init_state"
  by (simp add: build_inv_def lists_inv_init funcs_inv_init locs_inv_init ids_inv_init)

lemma build_inv_resolve_Location:
  assumes "build_inv seen s"
  shows "build_inv (seen @ [frame]) (snd (resolve_Location s frame))"
proof (cases "st_locs s (PC frame)")
  case None
  then show ?thesis
    using assms unfolding build_inv_def
    by (simp add: lists_inv_miss funcs_inv_miss locs_inv_miss ids_inv_resolve_Location)
next
  case (Some loc)
  then show ?thesis
    using assms unfolding build_inv_def
    by (simp add: resolve_Location_hit lists_inv_hit funcs_inv_seen locs_inv_seen)
qed

lemma build_inv_stack_loop:
  "build_inv seen s \<Longrightarrow> build_inv (seen @ frames) (snd (stack_loop frames sloc s))"
proof (induction frames arbitrary: seen sloc s)
  case Nil
  then show ?case by simp
next
  case (Cons frame frames)
  have "build_inv ((seen @ [frame]) @ frames)
          (snd (stack_loop frames (sloc @ [fst (resolve_Location s frame)]) (snd (resolve_Location s frame))))"
    by (rule Cons.IH) (rule build_inv_resolve_Location [OF Cons.prems])
  then show ?case
    by (simp add: split_beta)
qed

lemma build_inv_Sample:
  "build_inv seen (s\<lparr>st_p := (st_p s)\<lparr>Sample := x\<rparr>\<rparr>) = build_inv seen s"
  by (simp add: build_inv_def lists_inv_def funcs_inv_def locs_inv_def ids_inv_def)

lemma frames_of_Nil: "frames_of [] = []"
  by (simp add: frames_of_def)

lemma frames_of_Cons: "frames_of ((k, rec) # entries) = stk rec @ frames_of entries"
  by (simp add: frames_of_def)

lemma build_inv_records_loop:
  "build_inv seen s \<Longrightarrow> build_inv (seen @ frames_of entries) (records_loop entries s)"
proof (induction entries arbitrary: seen s)
  case Nil
  then show ?case by (simp add: frames_of_Nil)
next
  case (Cons entry entries)
  obtain k rec where entry: "entry = (k, rec)"
    by (cases entry)
  let ?s1 = "snd (stack_loop (stk rec) [] s)"
  let ?sample = "\<lparr>Value = [n rec, time rec], Sample.Location = fst (stack_loop (stk rec) [] s)\<rparr>"
  let ?s2 = "?s1\<lparr>st_p := (st_p ?s1)\<lparr>Sample := Sample (st_p ?s1) @ [?sample]\<rparr>\<rparr>"
  have "build_inv (seen @ stk rec) ?s1"
    using Cons.prems by (rule build_inv_stack_loop)
  then have "build_inv (seen @ stk rec) ?s2"
    by (simp only: build_inv_Sample)
  then have "build_inv ((seen @ stk rec) @ frames_of entries) (records_loop entries ?s2)"
    by (rule Cons.IH)
  then show ?case
    by (simp add: entry frames_of_Cons split_beta Let_def)
qed

lemma build_inv_final: "build_inv (frames_of entries) (records_loop entries init_state)"
  using build_inv_records_loop [OF build_inv_init, of entries] by simp

subsection \<open>What is placed in a sample\<close>

lemma resolve_Location_placed:
  "st_locs (snd (resolve_Location s frame)) (PC frame) = Some (fst (resolve_Location s frame))"
proof (cases "st_locs s (PC frame)")
  case None
  then show ?thesis
    by (simp add: resolve_Location_miss Let_def)
next
  case (Some loc)
  then show ?thesis
    by (simp add: resolve_Location_hit)
qed

lemma resolve_Location_mono:
  assumes "st_locs s pc = Some loc"
  shows "st_locs (snd (resolve_Location s frame)) pc = Some loc"
proof (cases "st_locs s (PC frame)")
  case None
  then have "pc \<noteq> PC frame"
    using assms by auto
  then show ?thesis
    using assms by (simp add: resolve_Location_miss [OF None] Let_def)
next
  case (Some l)
  then show ?thesis
    using assms by (simp add: resolve_Location_hit)
qed

lemma stack_loop_mono:
  "st_locs s pc = Some loc \<Longrightarrow> st_locs (snd (stack_loop frames sloc s)) pc = Some loc"
proof (induction frames arbitrary: sloc s)
  case Nil
  then show ?case by simp
next
  case (Cons frame frames)
  have "st_locs (snd (stack_loop frames (sloc @ [fst (resolve_Location s frame)])
          (snd (resolve_Location s frame)))) pc = Some loc"
    by (rule Cons.IH) (rule resolve_Location_mono [OF Cons.prems])
  then show ?case
    by (simp add: split_beta)
qed

lemma stack_loop_sloc:
  "map Some (fst (stack_loop frames sloc s)) =
     map Some sloc @ map (\<lambda>frame. st_locs (snd (stack_loop frames sloc s)) (PC frame)) frames"
proof (induction frames arbitrary: sloc s)
  case Nil
  then show ?case by simp
next
  case (Cons frame frames)
  let ?loc = "fst (resolve_Location s frame)"
  let ?s1 = "snd (resolve_Location s frame)"
  have "st_locs (snd (stack_loop frames (sloc @ [?loc]) ?s1)) (PC frame) = Some ?loc"
    by (rule stack_loop_mono) (rule resolve_Location_placed)
  then show ?case
    using Cons.IH [of "sloc @ [?loc]" ?s1] by (simp add: split_beta)
qed

lemma records_loop_mono:
  "st_locs s pc = Some loc \<Longrightarrow> st_locs (records_loop entries s) pc = Some loc"
proof (induction entries arbitrary: s)
  case Nil
  then show ?case by simp
next
  case (Cons entry entries)
  obtain k rec where entry: "entry = (k, rec)"
    by (cases entry)
  let ?s1 = "snd (stack_loop (stk rec) [] s)"
  let ?sample = "\<lparr>Value = [n rec, time rec], Sample.Location = fst (stack_loop (stk rec) [] s)\<rparr>"
  let ?s2 = "?s1\<lparr>st_p := (st_p ?s1)\<lparr>Sample := Sample (st_p ?s1) @ [?sample]\<rparr>\<rparr>"
  have "st_locs ?s2 pc = Some loc"
    using stack_loop_mono [OF Cons.prems, of "stk rec" "[]"] by simp
  then have "st_locs (records_loop entries ?s2) pc = Some loc"
    by (rule Cons.IH)
  then show ?case
    by (simp add: entry split_beta Let_def)
qed

lemma stack_loop_Sample: "Sample (st_p (snd (stack_loop frames sloc s))) = Sample (st_p s)"
proof (induction frames arbitrary: sloc s)
  case Nil
  then show ?case by simp
next
  case (Cons frame frames)
  have "Sample (st_p (snd (resolve_Location s frame))) = Sample (st_p s)"
    by (cases "st_locs s (PC frame)")
      (simp_all add: resolve_Location_miss resolve_Location_hit Let_def resolve_Function_other)
  then show ?case
    using Cons.IH [of "sloc @ [fst (resolve_Location s frame)]" "snd (resolve_Location s frame)"]
    by (simp add: split_beta)
qed

lemma resolve_Location_header:
  "PeriodType (st_p (snd (resolve_Location s frame))) = PeriodType (st_p s)"
  "Period (st_p (snd (resolve_Location s frame))) = Period (st_p s)"
  "SampleType (st_p (snd (resolve_Location s frame))) = SampleType (st_p s)"
  by (cases "st_locs s (PC frame)";
      simp add: resolve_Location_miss resolve_Location_hit Let_def resolve_Function_other)+

lemma stack_loop_header:
  "PeriodType (st_p (snd (stack_loop frames sloc s))) = PeriodType (st_p s)
   \<and> Period (st_p (snd (stack_loop frames sloc s))) = Period (st_p s)
   \<and> SampleType (st_p (snd (stack_loop frames sloc s))) = SampleType (st_p s)"
proof (induction frames arbitrary: sloc s)
  case Nil
  then show ?case by simp
next
  case (Cons frame frames)
  show ?case
    using Cons.IH [of "sloc @ [fst (resolve_Location s frame)]" "snd (resolve_Location s frame)"]
    by (simp add: split_beta resolve_Location_header)
qed

lemma records_loop_header:
  "PeriodType (st_p (records_loop entries s)) = PeriodType (st_p s)
   \<and> Period (st_p (records_loop entries s)) = Period (st_p s)
   \<and> SampleType (st_p (records_loop entries s)) = SampleType (st_p s)"
proof (induction entries arbitrary: s)
  case Nil
  then show ?case by simp
next
  case (Cons entry entries)
  obtain k rec where entry: "entry = (k, rec)"
    by (cases entry)
  let ?s1 = "snd (stack_loop (stk rec) [] s)"
  let ?sample = "\<lparr>Value = [n rec, time rec], Sample.Location = fst (stack_loop (stk rec) [] s)\<rparr>"
  let ?s2 = "?s1\<lparr>st_p := (st_p ?s1)\<lparr>Sample := Sample (st_p ?s1) @ [?sample]\<rparr>\<rparr>"
  show ?case
    using Cons.IH [of ?s2] stack_loop_header [of "stk rec" "[]" s]
    by (simp add: entry split_beta Let_def)
qed

lemma records_loop_Sample:
  "map (\<lambda>sample. (Value sample, map Some (Sample.Location sample)))
       (Sample (st_p (records_loop entries s))) =
     map (\<lambda>sample. (Value sample, map Some (Sample.Location sample))) (Sample (st_p s)) @
     map (\<lambda>(k, rec). ([n rec, time rec],
            map (\<lambda>frame. st_locs (records_loop entries s) (PC frame)) (stk rec))) entries"
proof (induction entries arbitrary: s)
  case Nil
  then show ?case by simp
next
  case (Cons entry entries)
  obtain k rec where entry: "entry = (k, rec)"
    by (cases entry)
  let ?sloc = "fst (stack_loop (stk rec) [] s)"
  let ?s1 = "snd (stack_loop (stk rec) [] s)"
  let ?sample = "\<lparr>Value = [n rec, time rec], Sample.Location = ?sloc\<rparr>"
  let ?s2 = "?s1\<lparr>st_p := (st_p ?s1)\<lparr>Sample := Sample (st_p ?s1) @ [?sample]\<rparr>\<rparr>"
  let ?final = "records_loop entries ?s2"
  have final: "records_loop (entry # entries) s = ?final"
    by (simp add: entry split_beta Let_def)
  have placed: "map Some ?sloc = map (\<lambda>frame. st_locs ?s1 (PC frame)) (stk rec)"
    using stack_loop_sloc [of "stk rec" "[]" s] by simp
  have keep: "st_locs ?final (PC frame) = st_locs ?s1 (PC frame)" if "frame \<in> set (stk rec)" for frame
  proof -
    have "st_locs ?s1 (PC frame) \<in> set (map (\<lambda>frame. st_locs ?s1 (PC frame)) (stk rec))"
      using that by simp
    then have "st_locs ?s1 (PC frame) \<in> set (map Some ?sloc)"
      by (simp only: placed)
    then obtain loc where loc: "st_locs ?s1 (PC frame) = Some loc"
      by auto
    then have "st_locs ?s2 (PC frame) = Some loc"
      by simp
    then have "st_locs ?final (PC frame) = Some loc"
      by (rule records_loop_mono)
    then show ?thesis
      using loc by simp
  qed
  have "map Some ?sloc = map (\<lambda>frame. st_locs ?final (PC frame)) (stk rec)"
    using keep by (simp add: placed)
  then have "map (\<lambda>sample. (Value sample, map Some (Sample.Location sample))) (Sample (st_p ?final)) =
     map (\<lambda>sample. (Value sample, map Some (Sample.Location sample))) (Sample (st_p s)) @
     map (\<lambda>(k, rec). ([n rec, time rec],
            map (\<lambda>frame. st_locs ?final (PC frame)) (stk rec))) (entry # entries)"
    using Cons.IH [of ?s2]
    by (simp add: entry stack_loop_Sample)
  then show ?case
    unfolding final .
qed

lemma buildProfile_header:
  "PeriodType (buildProfile entries) = \<lparr>Type = ''trace'', Unit = ''count''\<rparr>
   \<and> Period (buildProfile entries) = 1
   \<and> SampleType (buildProfile entries) =
       [\<lparr>Type = ''contentions'', Unit = ''count''\<rparr>, \<lparr>Type = ''delay'', Unit = ''nanoseconds''\<rparr>]"
  using records_loop_header [of entries init_state]
  by (simp add: buildProfile_def init_state_def new_Profile_def)

lemma buildProfile_Sample:
  "map (\<lambda>sample. (Value sample, map Some (Sample.Location sample))) (Sample (buildProfile entries)) =
     map (\<lambda>(k, rec). ([n rec, time rec],
            map (\<lambda>frame. st_locs (records_loop entries init_state) (PC frame)) (stk rec))) entries"
  using records_loop_Sample [of entries init_state]
  by (simp add: buildProfile_def init_state_def new_Profile_def)

lemma buildProfile_Value:
  "map Value (Sample (buildProfile entries)) = map (\<lambda>(k, rec). [n rec, time rec]) entries"
proof -
  have "map fst (map (\<lambda>sample. (Value sample, map Some (Sample.Location sample))) (Sample (buildProfile entries)))
      = map fst (map (\<lambda>(k, rec). ([n rec, time rec],
            map (\<lambda>frame. st_locs (records_loop entries init_state) (PC frame)) (stk rec))) entries)"
    by (simp only: buildProfile_Sample)
  then show ?thesis
    by (simp add: comp_def split_beta)
qed

lemma buildProfile_Location:
  "map Address (Profile.Location (buildProfile entries)) = map PC (firsts_by PC (frames_of entries))"
  using build_inv_final [of entries] by (simp add: build_inv_def lists_inv_def buildProfile_def)

lemma buildProfile_Function:
  "map (\<lambda>fn. (Filename fn, Name fn)) (Profile.Function (buildProfile entries)) =
     map (\<lambda>frame. (File frame, Fn frame)) (firsts_by frame_key (firsts_by PC (frames_of entries)))"
  using build_inv_final [of entries] by (simp add: build_inv_def lists_inv_def buildProfile_def)

lemma buildProfile_ids:
  "(\<forall>i < length (Profile.Function (buildProfile entries)).
        Function.ID (Profile.Function (buildProfile entries) ! i) = of_nat (i + 1))
   \<and> (\<forall>i < length (Profile.Location (buildProfile entries)).
        Location.ID (Profile.Location (buildProfile entries) ! i) = of_nat (i + 1))"
  using build_inv_final [of entries] by (simp add: build_inv_def ids_inv_def buildProfile_def)

section \<open>The claims about the builder and the entry points\<close>

text \<open>The builder run on the sample data.\<close>

lemma buildProfile_rec_7:
  "buildProfile [(7, rec_7)] =
    \<lparr>PeriodType = \<lparr>Type = ''trace'', Unit = ''count''\<rparr>,
     Period = 1,
     SampleType = [\<lparr>Type = ''contentions'', Unit = ''count''\<rparr>,
                   \<lparr>Type = ''delay'', Unit = ''nanoseconds''\<rparr>],
     Sample = [\<lparr>Value = [2, 250],
                Sample.Location =
                  [\<lparr>Location.ID = 1, Address = 4096,
                     Location.Line = [\<lparr>Line.Function = \<lparr>Function.ID = 1, Name = ''f'', SystemName = ''f'', Filename = ''a.go''\<rparr>, Line.Line = 10\<rparr>]\<rparr>,
                   \<lparr>Location.ID = 2, Address = 8192,
                     Location.Line = [\<lparr>Line.Function = \<lparr>Function.ID = 2, Name = ''g'', SystemName = ''g'', Filename = ''b.go''\<rparr>, Line.Line = 20\<rparr>]\<rparr>]\<rparr>],
     Location =
       [\<lparr>Location.ID = 1, Address = 4096,
          Location.Line = [\<lparr>Line.Function = \<lparr>Function.ID = 1, Name = ''f'', SystemName = ''f'', Filename = ''a.go''\<rparr>, Line.Line = 10\<rparr>]\<rparr>,
        \<lparr>Location.ID = 2, Address = 8192,
          Location.Line = [\<lparr>Line.Function = \<lparr>Function.ID = 2, Name = ''g'', SystemName = ''g'', Filename = ''b.go''\<rparr>, Line.Line = 20\<rparr>]\<rparr>],
     Function =
       [\<lparr>Function.ID = 1, Name = ''f'', SystemName = ''f'', Filename = ''a.go''\<rparr>,
        \<lparr>Function.ID = 2, Name = ''g'', SystemName = ''g'', Filename = ''b.go''\<rparr>]\<rparr>"
  by (simp add: buildProfile_def init_state_def new_Profile_def rec_7_def frame_a_def frame_b_def
      resolve_Location_def resolve_Function_def Let_def)

lemma buildProfile_rec_clash:
  "buildProfile [(7, rec_clash)] =
    \<lparr>PeriodType = \<lparr>Type = ''trace'', Unit = ''count''\<rparr>,
     Period = 1,
     SampleType = [\<lparr>Type = ''contentions'', Unit = ''count''\<rparr>,
                   \<lparr>Type = ''delay'', Unit = ''nanoseconds''\<rparr>],
     Sample = [\<lparr>Value = [1, 100],
                Sample.Location =
                  [\<lparr>Location.ID = 1, Address = 4096,
                     Location.Line = [\<lparr>Line.Function = \<lparr>Function.ID = 1, Name = ''f'', SystemName = ''f'', Filename = ''a.go''\<rparr>, Line.Line = 10\<rparr>]\<rparr>,
                   \<lparr>Location.ID = 1, Address = 4096,
                     Location.Line = [\<lparr>Line.Function = \<lparr>Function.ID = 1, Name = ''f'', SystemName = ''f'', Filename = ''a.go''\<rparr>, Line.Line = 10\<rparr>]\<rparr>]\<rparr>],
     Location =
       [\<lparr>Location.ID = 1, Address = 4096,
          Location.Line = [\<lparr>Line.Function = \<lparr>Function.ID = 1, Name = ''f'', SystemName = ''f'', Filename = ''a.go''\<rparr>, Line.Line = 10\<rparr>]\<rparr>],
     Function =
       [\<lparr>Function.ID = 1, Name = ''f'', SystemName = ''f'', Filename = ''a.go''\<rparr>]\<rparr>"
  by (simp add: buildProfile_def init_state_def new_Profile_def rec_clash_def frame_a_def frame_a2_def
      resolve_Location_def resolve_Function_def Let_def)

lemma frames_of_rec_7: "frames_of [(7, rec_7)] = [frame_a, frame_b]"
  by (simp add: frames_of_def rec_7_def)

lemma frames_of_rec_clash: "frames_of [(7, rec_clash)] = [frame_a, frame_a2]"
  by (simp add: frames_of_def rec_clash_def)



lemma ranges_empty: "ranges Map.empty entries \<longleftrightarrow> entries = []"
  by (auto simp: ranges_def)

lemma ranges_length: "ranges prof entries \<Longrightarrow> length entries = card (dom prof)"
proof -
  assume r: "ranges prof entries"
  then have "dom prof = set (map fst entries)"
    unfolding ranges_def by (metis dom_map_of_conv_image_fst set_map)
  moreover have "card (set (map fst entries)) = length (map fst entries)"
    using r by (simp only: ranges_def distinct_card)
  ultimately show ?thesis by simp
qed

text \<open>
  Claim C7. \<open>buildProfile\<close> has no error result and no partial operation: for every
  sequence of entries it returns a profile, and that profile carries the period
  descriptor \<open>{trace, count}\<close>, period 1 and the two sample types
  \<open>{contentions, count}\<close> and \<open>{delay, nanoseconds}\<close>. When no event is retained the
  aggregation returns the empty map, and for the empty map the profile has this header
  and empty \<open>Sample\<close>, \<open>Location\<close> and \<open>Function\<close> lists.
\<close>

theorem builder_is_total:
  "PeriodType (buildProfile entries) = \<lparr>Type = ''trace'', Unit = ''count''\<rparr>
   \<and> Period (buildProfile entries) = 1
   \<and> SampleType (buildProfile entries) =
       [\<lparr>Type = ''contentions'', Unit = ''count''\<rparr>, \<lparr>Type = ''delay'', Unit = ''nanoseconds''\<rparr>]
   \<and> ((\<forall>ev \<in> set events. \<not> spec_retained kind ev) \<longrightarrow>
        aggregate kind events Map.empty = Inr Map.empty)
   \<and> (ranges Map.empty entries \<longrightarrow>
        buildProfile entries =
          \<lparr>PeriodType = \<lparr>Type = ''trace'', Unit = ''count''\<rparr>,
           Period = 1,
           SampleType = [\<lparr>Type = ''contentions'', Unit = ''count''\<rparr>,
                         \<lparr>Type = ''delay'', Unit = ''nanoseconds''\<rparr>],
           Sample = [], Location = [], Function = []\<rparr>)"
proof -
  have none: "aggregate kind events Map.empty = Inr Map.empty"
    if "\<forall>ev \<in> set events. \<not> spec_retained kind ev"
  proof -
    have "filter (spec_retained kind) events = []"
      using that by (simp add: filter_empty_conv)
    then show ?thesis
      by (simp add: aggregate_fold del: aggregate.simps)
  qed
  have empty: "buildProfile [] =
          \<lparr>PeriodType = \<lparr>Type = ''trace'', Unit = ''count''\<rparr>,
           Period = 1,
           SampleType = [\<lparr>Type = ''contentions'', Unit = ''count''\<rparr>,
                         \<lparr>Type = ''delay'', Unit = ''nanoseconds''\<rparr>],
           Sample = [], Location = [], Function = []\<rparr>"
    by (simp add: buildProfile_def init_state_def new_Profile_def)
  show ?thesis
    using buildProfile_header [of entries] none empty by (simp add: ranges_empty)
qed

text \<open>On the sample data: an unlinked event alone gives the empty profile.\<close>

theorem builder_is_total_witness:
  "\<not> spec_retained IO net_unlinked
   \<and> aggregate IO [net_unlinked] Map.empty = Inr Map.empty
   \<and> ranges Map.empty []
   \<and> Sample (buildProfile []) = [] \<and> Profile.Location (buildProfile []) = []
   \<and> Profile.Function (buildProfile []) = []
   \<and> Period (buildProfile []) = 1
   \<and> map Type (SampleType (buildProfile [])) = [''contentions'', ''delay'']"
proof -
  have a: "\<forall>ev \<in> set [net_unlinked]. \<not> spec_retained IO ev"
    by (simp add: spec_retained_def net_unlinked_def)
  have b: "ranges Map.empty []"
    by (simp add: ranges_def)
  show ?thesis
    using builder_is_total [of "[]" "[net_unlinked]" IO] a b by simp
qed



lemma dense_ids_distinct:
  fixes ids :: "uint64 list"
  assumes "\<forall>i < length ids. ids ! i = of_nat (i + 1)" and "length ids < 2 ^ 64"
  shows "(\<forall>i < length ids. unat (ids ! i) = i + 1) \<and> distinct ids"
proof -
  have u: "unat (ids ! i) = i + 1" if "i < length ids" for i
  proof -
    have small: "i + 1 < 2 ^ 64"
      using that assms(2) by simp
    have "unat (of_nat (i + 1) :: uint64) = (i + 1) mod 2 ^ LENGTH(64)"
      by (rule unat_of_nat)
    also have "\<dots> = i + 1"
      using small by simp
    finally have "unat (of_nat (i + 1) :: uint64) = i + 1" .
    moreover have "ids ! i = of_nat (i + 1)"
      using assms(1) that by blast
    ultimately show ?thesis
      by (simp only:)
  qed
  have "ids ! i \<noteq> ids ! j" if "i < length ids" "j < length ids" "i \<noteq> j" for i j
    using u [OF that(1)] u [OF that(2)] that(3) by auto
  then have "distinct ids"
    by (simp add: distinct_conv_nth)
  then show ?thesis
    using u by blast
qed

text \<open>
  Claim C6. In the profile \<open>buildProfile\<close> returns, the \<open>i\<close>-th function (counting from
  0) has ID \<open>i + 1\<close> and so has the \<open>i\<close>-th location (as \<open>uint64\<close>: the code converts
  \<open>len(...) + 1\<close>); a Go slice has fewer than \<open>2 ^ 64\<close> elements, and then the IDs read
  as numbers are \<open>1, 2, ...\<close> without gap or duplicate. The lists are in first-seen
  order: the locations are those of the frames that are the first with their \<open>PC\<close>, and
  the functions those of the frames that, among these, are the first with their key.
\<close>

theorem ids_are_dense:
  "(\<forall>i < length (Profile.Function (buildProfile entries)).
        Function.ID (Profile.Function (buildProfile entries) ! i) = of_nat (i + 1))
   \<and> (\<forall>i < length (Profile.Location (buildProfile entries)).
        Location.ID (Profile.Location (buildProfile entries) ! i) = of_nat (i + 1))
   \<and> (length (Profile.Function (buildProfile entries)) < 2 ^ 64 \<longrightarrow>
        (\<forall>i < length (Profile.Function (buildProfile entries)).
           unat (Function.ID (Profile.Function (buildProfile entries) ! i)) = i + 1)
        \<and> distinct (map Function.ID (Profile.Function (buildProfile entries))))
   \<and> (length (Profile.Location (buildProfile entries)) < 2 ^ 64 \<longrightarrow>
        (\<forall>i < length (Profile.Location (buildProfile entries)).
           unat (Location.ID (Profile.Location (buildProfile entries) ! i)) = i + 1)
        \<and> distinct (map Location.ID (Profile.Location (buildProfile entries))))
   \<and> map Address (Profile.Location (buildProfile entries))
       = map PC (firsts_by PC (frames_of entries))
   \<and> map (\<lambda>fn. (Filename fn, Name fn)) (Profile.Function (buildProfile entries))
       = map (\<lambda>frame. (File frame, Fn frame))
           (firsts_by frame_key (firsts_by PC (frames_of entries)))"
proof -
  let ?fs = "Profile.Function (buildProfile entries)"
  let ?ls = "Profile.Location (buildProfile entries)"
  have f: "\<forall>i < length ?fs. Function.ID (?fs ! i) = of_nat (i + 1)"
    and l: "\<forall>i < length ?ls. Location.ID (?ls ! i) = of_nat (i + 1)"
    using buildProfile_ids [of entries] by simp_all
  have fd: "(\<forall>i < length ?fs. unat (Function.ID (?fs ! i)) = i + 1) \<and> distinct (map Function.ID ?fs)"
    if "length ?fs < 2 ^ 64"
    using dense_ids_distinct [of "map Function.ID ?fs"] f that by simp
  have ld: "(\<forall>i < length ?ls. unat (Location.ID (?ls ! i)) = i + 1) \<and> distinct (map Location.ID ?ls)"
    if "length ?ls < 2 ^ 64"
    using dense_ids_distinct [of "map Location.ID ?ls"] l that by simp
  show ?thesis
    using f l fd ld buildProfile_Location [of entries] buildProfile_Function [of entries]
    by (intro conjI impI) blast+
qed

text \<open>On the example of the specification: IDs 1 and 2, in the order of the stack.\<close>

theorem ids_are_dense_witness:
  "length (Profile.Function (buildProfile [(7, rec_7)])) < 2 ^ 64
   \<and> length (Profile.Location (buildProfile [(7, rec_7)])) < 2 ^ 64
   \<and> map Function.ID (Profile.Function (buildProfile [(7, rec_7)])) = [1, 2]
   \<and> map Location.ID (Profile.Location (buildProfile [(7, rec_7)])) = [1, 2]
   \<and> distinct (map Function.ID (Profile.Function (buildProfile [(7, rec_7)])))
   \<and> distinct (map Location.ID (Profile.Location (buildProfile [(7, rec_7)])))
   \<and> map Address (Profile.Location (buildProfile [(7, rec_7)])) = [4096, 8192]
   \<and> map Name (Profile.Function (buildProfile [(7, rec_7)])) = [''f'', ''g'']"
proof -
  have lf: "length (Profile.Function (buildProfile [(7, rec_7)])) = 2"
    and ll: "length (Profile.Location (buildProfile [(7, rec_7)])) = 2"
    by (simp_all add: buildProfile_rec_7)
  have small: "length (Profile.Function (buildProfile [(7, rec_7)])) < 2 ^ 64"
    "length (Profile.Location (buildProfile [(7, rec_7)])) < 2 ^ 64"
    by (simp_all add: lf ll)
  have fids: "\<forall>i < 2. Function.ID (Profile.Function (buildProfile [(7, rec_7)]) ! i) = of_nat (i + 1)"
    and lids: "\<forall>i < 2. Location.ID (Profile.Location (buildProfile [(7, rec_7)]) ! i) = of_nat (i + 1)"
    and fdis: "distinct (map Function.ID (Profile.Function (buildProfile [(7, rec_7)])))"
    and ldis: "distinct (map Location.ID (Profile.Location (buildProfile [(7, rec_7)])))"
    using ids_are_dense [of "[(7, rec_7)]"] small unfolding lf ll by blast+
  have "map Function.ID (Profile.Function (buildProfile [(7, rec_7)])) = [1, 2]"
    using fids lf by (simp add: list_eq_iff_nth_eq less_Suc_eq numeral_2_eq_2 all_conj_distrib)
  moreover have "map Location.ID (Profile.Location (buildProfile [(7, rec_7)])) = [1, 2]"
    using lids ll by (simp add: list_eq_iff_nth_eq less_Suc_eq numeral_2_eq_2 all_conj_distrib)
  moreover have "map Address (Profile.Location (buildProfile [(7, rec_7)])) = [4096, 8192]"
    and "map Name (Profile.Function (buildProfile [(7, rec_7)])) = [''f'', ''g'']"
    by (simp_all add: buildProfile_rec_7)
  ultimately show ?thesis
    using small fdis ldis by blast
qed

text \<open>
  Claim C9, as amended. If \<open>parseEvents\<close> fails, each of the four entry points returns
  its error unchanged and leaves the writer as it was. If it succeeds, the aggregation
  does not panic and the entry point returns what \<open>Write\<close> returns for the built
  profile: aggregation and building cannot fail, writing can.
\<close>

theorem entry_points_propagate:
  "pprof kind (Inl err) iter Write w = Inr (Some err, w)
   \<and> (\<exists>prof. aggregate kind events Map.empty = Inr prof
        \<and> pprof kind (Inr events) iter Write w = Inr (Write (buildProfile (iter prof)) w))"
proof -
  have "pprof kind (Inl err) iter Write w = Inr (Some err, w)"
    by (cases kind) (simp_all add: pprofIO_def pprofBlock_def pprofSyscall_def pprofSched_def)
  moreover have "pprof kind (Inr events) iter Write w =
      (case aggregate kind events Map.empty of
         Inl pn \<Rightarrow> Inl pn
       | Inr prof \<Rightarrow> Inr (Write (buildProfile (iter prof)) w))"
    by (cases kind) (simp_all add: pprofIO_def pprofBlock_def pprofSyscall_def pprofSched_def)
  ultimately show ?thesis
    by (simp add: aggregate_fold del: aggregate.simps)
qed

text \<open>
  Claim C9 as stated fails: line 52 returns the error of \<open>Write\<close>, so with a writer
  that fails \<open>pprofIO\<close> returns an error although the events were parsed.
\<close>

theorem write_failure_counterexample:
  "pprofIO (Inr []) iter_single failing_Write ''''
     = Inr (Some ''short write'', '''')"
  by (simp add: pprofIO_def failing_Write_def)

lemma distinct_map_outer: "distinct (map (\<lambda>x. g (h x)) xs) \<Longrightarrow> distinct (map h xs)"
  by (induction xs) auto

lemma buildProfile_Function_distinct:
  "distinct (map (\<lambda>fn. (Filename fn, Name fn)) (Profile.Function (buildProfile entries)))"
proof -
  have "distinct (map (\<lambda>frame. case (File frame, Fn frame) of (a, b) \<Rightarrow> a @ b)
          (firsts_by frame_key (firsts_by PC (frames_of entries))))"
    using distinct_firsts_by [of frame_key "firsts_by PC (frames_of entries)"]
    by (simp add: frame_key_def [abs_def])
  then have "distinct (map (\<lambda>frame. (File frame, Fn frame))
          (firsts_by frame_key (firsts_by PC (frames_of entries))))"
    by (rule distinct_map_outer)
  then show ?thesis
    by (simp only: buildProfile_Function)
qed

lemma buildProfile_Function_set:
  assumes "same_pc_same_function (frames_of entries)" and "keys_separate (frames_of entries)"
  shows "set (map (\<lambda>fn. (Filename fn, Name fn)) (Profile.Function (buildProfile entries)))
           = (\<lambda>frame. (File frame, Fn frame)) ` set (frames_of entries)"
proof -
  let ?fs = "frames_of entries"
  let ?firsts = "firsts_by PC ?fs"
  let ?creators = "firsts_by frame_key ?firsts"
  have sub1: "set ?firsts \<subseteq> set ?fs" and sub2: "set ?creators \<subseteq> set ?firsts"
    by (rule set_firsts_by_subset)+
  have "(\<lambda>frame. (File frame, Fn frame)) ` set ?creators = (\<lambda>frame. (File frame, Fn frame)) ` set ?fs"
  proof
    show "(\<lambda>frame. (File frame, Fn frame)) ` set ?creators \<subseteq> (\<lambda>frame. (File frame, Fn frame)) ` set ?fs"
      using sub1 sub2 by blast
    show "(\<lambda>frame. (File frame, Fn frame)) ` set ?fs \<subseteq> (\<lambda>frame. (File frame, Fn frame)) ` set ?creators"
    proof
      fix x
      assume "x \<in> (\<lambda>frame. (File frame, Fn frame)) ` set ?fs"
      then obtain f where f: "f \<in> set ?fs" "x = (File f, Fn f)"
        by blast
      have "PC f \<in> PC ` set ?firsts"
        using f(1) by (simp add: image_firsts_by)
      then obtain g where g: "g \<in> set ?firsts" "PC g = PC f"
        by auto
      have gf: "File g = File f \<and> Fn g = Fn f"
        using assms(1) g f(1) sub1 unfolding same_pc_same_function_def by blast
      have "frame_key g \<in> frame_key ` set ?creators"
        using g(1) by (simp add: image_firsts_by)
      then obtain h where h: "h \<in> set ?creators" "frame_key h = frame_key g"
        by auto
      have "File h = File g \<and> Fn h = Fn g"
        using assms(2) h g(1) sub1 sub2 unfolding keys_separate_def frame_key_def by blast
      then have "x = (File h, Fn h)"
        using gf f(2) by simp
      then show "x \<in> (\<lambda>frame. (File frame, Fn frame)) ` set ?creators"
        using h(1) by blast
    qed
  qed
  then show ?thesis
    by (simp add: buildProfile_Function)
qed

text \<open>
  Claim C4, as amended. The profile has one sample per entry of the map, and exactly
  one location per distinct \<open>PC\<close> among the frames of all stacks. Its functions are
  pairwise different in (file, name); they are exactly the distinct (file, name) pairs
  of the frames provided that frames of equal \<open>PC\<close> have the same file and name and
  that different pairs have different concatenations: a frame whose \<open>PC\<close> already has a
  location contributes no function, and the index of functions is keyed by the
  concatenation.
\<close>

theorem one_entry_per_key:
  "length (Sample (buildProfile entries)) = length entries
   \<and> (ranges prof entries \<longrightarrow> length (Sample (buildProfile entries)) = card (dom prof))
   \<and> distinct (map Address (Profile.Location (buildProfile entries)))
   \<and> set (map Address (Profile.Location (buildProfile entries))) = PC ` set (frames_of entries)
   \<and> length (Profile.Location (buildProfile entries)) = card (PC ` set (frames_of entries))
   \<and> distinct (map (\<lambda>fn. (Filename fn, Name fn)) (Profile.Function (buildProfile entries)))
   \<and> (same_pc_same_function (frames_of entries) \<and> keys_separate (frames_of entries) \<longrightarrow>
        set (map (\<lambda>fn. (Filename fn, Name fn)) (Profile.Function (buildProfile entries)))
          = (\<lambda>frame. (File frame, Fn frame)) ` set (frames_of entries)
      \<and> length (Profile.Function (buildProfile entries))
          = card ((\<lambda>frame. (File frame, Fn frame)) ` set (frames_of entries)))"
proof -
  let ?p = "buildProfile entries"
  let ?fs = "frames_of entries"
  have "length (map Value (Sample ?p)) = length (map (\<lambda>(k, rec). [n rec, time rec]) entries)"
    by (simp only: buildProfile_Value)
  then have samples: "length (Sample ?p) = length entries"
    by simp
  have per_record: "length (Sample ?p) = card (dom prof)" if "ranges prof entries"
    using samples ranges_length [OF that] by simp
  have ld: "distinct (map Address (Profile.Location ?p))"
    by (simp only: buildProfile_Location distinct_firsts_by)
  have ls: "set (map Address (Profile.Location ?p)) = PC ` set ?fs"
    by (simp add: buildProfile_Location image_firsts_by)
  have "length (map Address (Profile.Location ?p)) = length (map PC (firsts_by PC ?fs))"
    by (simp only: buildProfile_Location)
  then have ll: "length (Profile.Location ?p) = card (PC ` set ?fs)"
    by (simp add: length_firsts_by)
  have fd: "distinct (map (\<lambda>fn. (Filename fn, Name fn)) (Profile.Function ?p))"
    by (rule buildProfile_Function_distinct)
  have fsl: "set (map (\<lambda>fn. (Filename fn, Name fn)) (Profile.Function ?p))
          = (\<lambda>frame. (File frame, Fn frame)) ` set ?fs
      \<and> length (Profile.Function ?p) = card ((\<lambda>frame. (File frame, Fn frame)) ` set ?fs)"
    if "same_pc_same_function ?fs \<and> keys_separate ?fs"
  proof -
    have s: "set (map (\<lambda>fn. (Filename fn, Name fn)) (Profile.Function ?p))
          = (\<lambda>frame. (File frame, Fn frame)) ` set ?fs"
      using that by (simp only: buildProfile_Function_set)
    have "length (Profile.Function ?p) = length (map (\<lambda>fn. (Filename fn, Name fn)) (Profile.Function ?p))"
      by simp
    also have "\<dots> = card (set (map (\<lambda>fn. (Filename fn, Name fn)) (Profile.Function ?p)))"
      using fd by (simp only: distinct_card)
    finally show ?thesis
      using s by simp
  qed
  show ?thesis
    using samples per_record ld ls ll fd fsl by blast
qed

text \<open>The example of the specification: 1 sample, 2 locations, 2 functions.\<close>

theorem one_entry_per_key_witness:
  "ranges (Map.empty(7 \<mapsto> rec_7)) [(7, rec_7)]
   \<and> same_pc_same_function (frames_of [(7, rec_7)]) \<and> keys_separate (frames_of [(7, rec_7)])
   \<and> length (Sample (buildProfile [(7, rec_7)])) = 1
   \<and> length (Profile.Location (buildProfile [(7, rec_7)])) = 2
   \<and> length (Profile.Function (buildProfile [(7, rec_7)])) = 2
   \<and> set (map (\<lambda>fn. (Filename fn, Name fn)) (Profile.Function (buildProfile [(7, rec_7)])))
        = {(''a.go'', ''f''), (''b.go'', ''g'')}"
proof -
  have r: "ranges (Map.empty(7 \<mapsto> rec_7)) [(7, rec_7)]"
    by (simp add: ranges_def)
  have h1: "same_pc_same_function (frames_of [(7, rec_7)])"
    by (simp add: frames_of_rec_7 same_pc_same_function_def frame_a_def frame_b_def)
  have h2: "keys_separate (frames_of [(7, rec_7)])"
    by (simp add: frames_of_rec_7 keys_separate_def frame_a_def frame_b_def)
  have pcs: "card (PC ` set (frames_of [(7, rec_7)])) = 2"
    by (simp add: frames_of_rec_7 frame_a_def frame_b_def)
  have pairs: "(\<lambda>frame. (File frame, Fn frame)) ` set (frames_of [(7, rec_7)])
                 = {(''a.go'', ''f''), (''b.go'', ''g'')}"
    by (simp add: frames_of_rec_7 frame_a_def frame_b_def)
  have npairs: "card ((\<lambda>frame. (File frame, Fn frame)) ` set (frames_of [(7, rec_7)])) = 2"
    unfolding pairs by simp
  have "length (Sample (buildProfile [(7, rec_7)])) = length [(7 :: uint64, rec_7)]"
    and "length (Profile.Location (buildProfile [(7, rec_7)])) = card (PC ` set (frames_of [(7, rec_7)]))"
    and "set (map (\<lambda>fn. (Filename fn, Name fn)) (Profile.Function (buildProfile [(7, rec_7)])))
          = (\<lambda>frame. (File frame, Fn frame)) ` set (frames_of [(7, rec_7)])"
    and "length (Profile.Function (buildProfile [(7, rec_7)]))
          = card ((\<lambda>frame. (File frame, Fn frame)) ` set (frames_of [(7, rec_7)]))"
    using one_entry_per_key [of "[(7, rec_7)]" "Map.empty(7 \<mapsto> rec_7)"] r h1 h2 by blast+
  then show ?thesis
    using r h1 h2 unfolding pcs pairs npairs by simp
qed

text \<open>
  Claim C4 as stated fails: a stack of two frames with the same \<open>PC\<close> and different
  (file, name) pairs gives one function, not two.
\<close>

theorem one_Function_per_pair_counterexample:
  "length (Profile.Function (buildProfile [(7, rec_clash)])) = 1
   \<and> card ((\<lambda>frame. (File frame, Fn frame)) ` set (stk rec_clash)) = 2"
  by (simp add: buildProfile_rec_clash) (simp add: rec_clash_def frame_a_def frame_a2_def)

lemma map_Some_transfer:
  assumes "map Some xs = map g ys" and "\<forall>y \<in> set ys. \<forall>l. g y = Some l \<longrightarrow> r l = t y"
  shows "map r xs = map t ys"
  using assms
proof (induction xs arbitrary: ys)
  case Nil
  then show ?case by simp
next
  case (Cons x xs)
  then obtain y ys' where ys: "ys = y # ys'"
    by (cases ys) auto
  have "g y = Some x" and "map Some xs = map g ys'"
    using Cons.prems(1) by (simp_all add: ys)
  moreover have "\<forall>y \<in> set ys'. \<forall>l. g y = Some l \<longrightarrow> r l = t y"
    and "\<forall>l. g y = Some l \<longrightarrow> r l = t y"
    using Cons.prems(2) by (simp_all add: ys)
  ultimately show ?case
    using Cons.IH [of ys'] by (simp add: ys)
qed

lemma map_map_transfer:
  assumes "map (\<lambda>s. map Some (L s)) ss = map (\<lambda>e. map g (F e)) es"
    and "\<forall>e \<in> set es. \<forall>y \<in> set (F e). \<forall>l. g y = Some l \<longrightarrow> r l = t y"
  shows "map (\<lambda>s. map r (L s)) ss = map (\<lambda>e. map t (F e)) es"
  using assms
proof (induction ss arbitrary: es)
  case Nil
  then show ?case by simp
next
  case (Cons s ss)
  then obtain e es' where es: "es = e # es'"
    by (cases es) auto
  have hd: "map Some (L s) = map g (F e)"
    and tl: "map (\<lambda>s. map Some (L s)) ss = map (\<lambda>e. map g (F e)) es'"
    using Cons.prems(1) by (simp_all add: es)
  have here: "\<forall>y \<in> set (F e). \<forall>l. g y = Some l \<longrightarrow> r l = t y"
    and rest: "\<forall>e \<in> set es'. \<forall>y \<in> set (F e). \<forall>l. g y = Some l \<longrightarrow> r l = t y"
    using Cons.prems(2) by (simp_all add: es)
  have "map r (L s) = map t (F e)"
    using hd here by (rule map_Some_transfer)
  moreover have "map (\<lambda>s. map r (L s)) ss = map (\<lambda>e. map t (F e)) es'"
    using tl rest by (rule Cons.IH)
  ultimately show ?case
    by (simp add: es)
qed

lemma buildProfile_placed:
  "map (\<lambda>sample. map Some (Sample.Location sample)) (Sample (buildProfile entries)) =
     map (\<lambda>entry. map (\<lambda>frame. st_locs (records_loop entries init_state) (PC frame)) (stk (snd entry)))
         entries"
proof -
  have "map snd (map (\<lambda>sample. (Value sample, map Some (Sample.Location sample))) (Sample (buildProfile entries)))
      = map snd (map (\<lambda>(k, rec). ([n rec, time rec],
            map (\<lambda>frame. st_locs (records_loop entries init_state) (PC frame)) (stk rec))) entries)"
    by (simp only: buildProfile_Sample)
  then show ?thesis
    by (simp add: comp_def split_beta)
qed

lemma stk_subset_frames_of: "entry \<in> set entries \<Longrightarrow> set (stk (snd entry)) \<subseteq> set (frames_of entries)"
  by (auto simp: frames_of_def split_beta)

lemma final_index:
  assumes "st_locs (records_loop entries init_state) pc = Some loc"
  shows "\<exists>g fn h. find (\<lambda>frame. PC frame = pc) (frames_of entries) = Some g
           \<and> Address loc = pc
           \<and> Location.Line loc = [\<lparr>Line.Function = fn, Line.Line = Frame.Line g\<rparr>]
           \<and> h \<in> set (frames_of entries) \<and> File h @ Fn h = File g @ Fn g
           \<and> Filename fn = File h \<and> Name fn = Fn h
           \<and> fn \<in> set (Profile.Function (buildProfile entries))
           \<and> loc \<in> set (Profile.Location (buildProfile entries))"
proof -
  let ?s = "records_loop entries init_state"
  have li: "locs_inv (frames_of entries) ?s" and fi: "funcs_inv (frames_of entries) ?s"
    using build_inv_final [of entries] by (simp_all add: build_inv_def)
  obtain g fn where g: "find (\<lambda>frame. PC frame = pc) (frames_of entries) = Some g"
    "Address loc = pc" "loc \<in> set (Profile.Location (st_p ?s))"
    "Location.Line loc = [\<lparr>Line.Function = fn, Line.Line = Frame.Line g\<rparr>]"
    "st_funcs ?s (frame_key g) = Some fn"
    using li assms unfolding locs_inv_def by blast
  obtain h where h: "h \<in> set (frames_of entries)" "frame_key h = frame_key g"
    "Filename fn = File h" "Name fn = Fn h" "fn \<in> set (Profile.Function (st_p ?s))"
    using fi g(5) unfolding funcs_inv_def by blast
  show ?thesis
    using g h by (auto simp: buildProfile_def frame_key_def)
qed

text \<open>
  Claim C5, as amended. If frames of equal \<open>PC\<close> have the same file, name and line, and
  different (file, name) pairs have different concatenations, then reading back the
  locations of each sample gives the (pc, file, name, line) tuples of the frames of its
  record, in order.
\<close>

theorem stack_round_trip:
  "same_pc_same_frame (frames_of entries) \<and> keys_separate (frames_of entries) \<longrightarrow>
     map (\<lambda>sample. map read_Location (Sample.Location sample)) (Sample (buildProfile entries))
       = map (\<lambda>(k, rec). map (\<lambda>frame. Some (frame_tuple frame)) (stk rec)) entries"
proof
  assume hyp: "same_pc_same_frame (frames_of entries) \<and> keys_separate (frames_of entries)"
  let ?index = "st_locs (records_loop entries init_state)"
  have read: "read_Location loc = Some (frame_tuple frame)"
    if e: "entry \<in> set entries" and f: "frame \<in> set (stk (snd entry))"
      and l: "?index (PC frame) = Some loc"
    for entry frame loc
  proof -
    have mem: "frame \<in> set (frames_of entries)"
      using e f stk_subset_frames_of by blast
    obtain g fn h where g: "find (\<lambda>x. PC x = PC frame) (frames_of entries) = Some g"
      "Address loc = PC frame"
      "Location.Line loc = [\<lparr>Line.Function = fn, Line.Line = Frame.Line g\<rparr>]"
      "h \<in> set (frames_of entries)" "File h @ Fn h = File g @ Fn g"
      "Filename fn = File h" "Name fn = Fn h"
      using final_index [OF l] by blast
    have gm: "g \<in> set (frames_of entries)" and gpc: "PC g = PC frame"
      using g(1) by (auto simp: find_Some_iff)
    have same: "File g = File frame \<and> Fn g = Fn frame \<and> Frame.Line g = Frame.Line frame"
      using hyp gm mem gpc unfolding same_pc_same_frame_def by blast
    have "File h = File g \<and> Fn h = Fn g"
      using hyp g(4) gm g(5) unfolding keys_separate_def by blast
    then show ?thesis
      using same g(2,3,6,7) by (simp add: read_Location_def frame_tuple_def)
  qed
  have "map (\<lambda>sample. map read_Location (Sample.Location sample)) (Sample (buildProfile entries))
       = map (\<lambda>entry. map (\<lambda>frame. Some (frame_tuple frame)) (stk (snd entry))) entries"
    using buildProfile_placed [of entries]
    by (rule map_map_transfer) (use read in blast)
  then show "map (\<lambda>sample. map read_Location (Sample.Location sample)) (Sample (buildProfile entries))
       = map (\<lambda>(k, rec). map (\<lambda>frame. Some (frame_tuple frame)) (stk rec)) entries"
    by (simp add: split_beta)
qed

text \<open>The example of the specification is read back as it was.\<close>

theorem stack_round_trip_witness:
  "same_pc_same_frame (frames_of [(7, rec_7)]) \<and> keys_separate (frames_of [(7, rec_7)])
   \<and> map (\<lambda>sample. map read_Location (Sample.Location sample)) (Sample (buildProfile [(7, rec_7)]))
       = [[Some (4096, ''a.go'', ''f'', 10), Some (8192, ''b.go'', ''g'', 20)]]"
proof -
  have h1: "same_pc_same_frame (frames_of [(7, rec_7)])"
    by (simp add: frames_of_rec_7 same_pc_same_frame_def frame_a_def frame_b_def)
  have h2: "keys_separate (frames_of [(7, rec_7)])"
    by (simp add: frames_of_rec_7 keys_separate_def frame_a_def frame_b_def)
  have "map (\<lambda>sample. map read_Location (Sample.Location sample)) (Sample (buildProfile [(7, rec_7)]))
       = map (\<lambda>(k, rec). map (\<lambda>frame. Some (frame_tuple frame)) (stk rec)) [(7 :: uint64, rec_7)]"
    using stack_round_trip [of "[(7, rec_7)]"] h1 h2 by blast
  then show ?thesis
    using h1 h2 by (simp add: rec_7_def frame_tuple_def frame_a_def frame_b_def)
qed

text \<open>
  Claim C5 as stated fails: the second frame of \<open>rec_clash\<close> has the \<open>PC\<close> of the first,
  so it is read back with the file, name and line of the first.
\<close>

theorem stack_round_trip_counterexample:
  "map (\<lambda>sample. map read_Location (Sample.Location sample)) (Sample (buildProfile [(7, rec_clash)]))
     = [[Some (4096, ''a.go'', ''f'', 10), Some (4096, ''a.go'', ''f'', 10)]]
   \<and> map frame_tuple (stk rec_clash) = [(4096, ''a.go'', ''f'', 10), (4096, ''c.go'', ''h'', 30)]"
  by (simp add: buildProfile_rec_clash read_Location_def)
    (simp add: rec_clash_def frame_tuple_def frame_a_def frame_a2_def)

text \<open>
  Claim C10. A frame whose \<open>PC\<close> is in the index \<open>locs\<close> gets the location stored
  there, and the state is left as it is: no function is made and nothing is read from
  the file, function name or line of the frame. For a whole build there is an index of
  locations by \<open>PC\<close> such that every sample holds, frame by frame, the location of the
  frame's \<open>PC\<close>; that location carries the line of the first frame of the build with
  this \<open>PC\<close> and a function under the key of that first frame; and functions are made
  only for frames that are the first with their \<open>PC\<close>.
\<close>

theorem pc_lookup_takes_precedence:
  "(st_locs s (PC frame) = Some loc \<longrightarrow> resolve_Location s frame = (loc, s))
   \<and> (\<exists>index.
         map (\<lambda>sample. map Some (Sample.Location sample)) (Sample (buildProfile entries))
           = map (\<lambda>(k, rec). map (\<lambda>frame. index (PC frame)) (stk rec)) entries
       \<and> (\<forall>pc loc. index pc = Some loc \<longrightarrow>
            (\<exists>g fn. find (\<lambda>frame. PC frame = pc) (frames_of entries) = Some g
               \<and> Address loc = pc
               \<and> Location.Line loc = [\<lparr>Line.Function = fn, Line.Line = Frame.Line g\<rparr>]
               \<and> Filename fn @ Name fn = File g @ Fn g
               \<and> fn \<in> set (Profile.Function (buildProfile entries))
               \<and> loc \<in> set (Profile.Location (buildProfile entries)))))
   \<and> map (\<lambda>fn. (Filename fn, Name fn)) (Profile.Function (buildProfile entries))
       = map (\<lambda>frame. (File frame, Fn frame))
           (firsts_by frame_key (firsts_by PC (frames_of entries)))"
proof -
  let ?index = "st_locs (records_loop entries init_state)"
  have hit: "resolve_Location s frame = (loc, s)" if "st_locs s (PC frame) = Some loc"
    using that by (rule resolve_Location_hit)
  have placed: "map (\<lambda>sample. map Some (Sample.Location sample)) (Sample (buildProfile entries))
           = map (\<lambda>(k, rec). map (\<lambda>frame. ?index (PC frame)) (stk rec)) entries"
    using buildProfile_placed [of entries] by (simp add: split_beta)
  have first: "\<exists>g fn. find (\<lambda>frame. PC frame = pc) (frames_of entries) = Some g
               \<and> Address loc = pc
               \<and> Location.Line loc = [\<lparr>Line.Function = fn, Line.Line = Frame.Line g\<rparr>]
               \<and> Filename fn @ Name fn = File g @ Fn g
               \<and> fn \<in> set (Profile.Function (buildProfile entries))
               \<and> loc \<in> set (Profile.Location (buildProfile entries))"
    if "?index pc = Some loc" for pc loc
    using final_index [OF that] by metis
  have ex: "\<exists>index.
         map (\<lambda>sample. map Some (Sample.Location sample)) (Sample (buildProfile entries))
           = map (\<lambda>(k, rec). map (\<lambda>frame. index (PC frame)) (stk rec)) entries
       \<and> (\<forall>pc loc. index pc = Some loc \<longrightarrow>
            (\<exists>g fn. find (\<lambda>frame. PC frame = pc) (frames_of entries) = Some g
               \<and> Address loc = pc
               \<and> Location.Line loc = [\<lparr>Line.Function = fn, Line.Line = Frame.Line g\<rparr>]
               \<and> Filename fn @ Name fn = File g @ Fn g
               \<and> fn \<in> set (Profile.Function (buildProfile entries))
               \<and> loc \<in> set (Profile.Location (buildProfile entries))))"
    using placed first by (intro exI [of _ ?index]) blast
  show ?thesis
    using hit ex buildProfile_Function [of entries] by blast
qed

text \<open>
  On the sample data: after \<open>frame_a\<close>, the frame \<open>frame_a2\<close> of file \<open>c.go\<close> gets the
  location of \<open>frame_a\<close> and the only function is still that of \<open>a.go\<close>.
\<close>

theorem pc_lookup_takes_precedence_witness:
  "st_locs state_after_a (PC frame_a2) = Some loc_a
   \<and> resolve_Location state_after_a frame_a2 = (loc_a, state_after_a)
   \<and> File frame_a2 = ''c.go'' \<and> Fn frame_a2 = ''h'' \<and> Frame.Line frame_a2 = 30
   \<and> Location.Line loc_a =
        [\<lparr>Line.Function = \<lparr>Function.ID = 1, Name = ''f'', SystemName = ''f'', Filename = ''a.go''\<rparr>,
          Line.Line = 10\<rparr>]
   \<and> map Filename (Profile.Function (st_p state_after_a)) = [''a.go'']"
proof -
  have "PC frame_a2 = PC frame_a"
    by (simp add: frame_a_def frame_a2_def)
  then have hit: "st_locs state_after_a (PC frame_a2) = Some loc_a"
    using resolve_Location_placed [of init_state frame_a]
    by (simp add: state_after_a_def loc_a_def)
  have "resolve_Location state_after_a frame_a2 = (loc_a, state_after_a)"
    using pc_lookup_takes_precedence [of state_after_a frame_a2 loc_a "[]"] hit by blast
  moreover have "Location.Line loc_a =
        [\<lparr>Line.Function = \<lparr>Function.ID = 1, Name = ''f'', SystemName = ''f'', Filename = ''a.go''\<rparr>,
          Line.Line = 10\<rparr>]"
    by (simp add: loc_a_def resolve_Location_def resolve_Function_def init_state_def
        new_Profile_def frame_a_def Let_def)
  moreover have "map Filename (Profile.Function (st_p state_after_a)) = [''a.go'']"
    by (simp add: state_after_a_def resolve_Location_def resolve_Function_def init_state_def
        new_Profile_def frame_a_def Let_def)
  ultimately show ?thesis
    using hit by (simp add: frame_a2_def)
qed

text \<open>
  On the sample data: a parse error comes back unchanged with the writer untouched,
  and two parsed events are written as one sample.
\<close>

theorem entry_points_propagate_witness:
  "pprof Syscall (Inl ''bad trace'') iter_single failing_Write ''out''
     = Inr (Some ''bad trace'', ''out'')
   \<and> pprof IO (Inr [net_1, net_2]) iter_single sample_marks_Write '''' = Inr (None, ''s'')"
proof -
  have run0: "aggregate IO [net_1, net_2] Map.empty
                = Inr (Map.empty(7 \<mapsto> \<lparr>stk = [frame_a, frame_b], n = 2, time = 250\<rparr>))"
    by (simp add: net_1_def net_2_def wake_def accumulate_def index_Record_def)
  obtain prof where run: "aggregate IO [net_1, net_2] Map.empty = Inr prof"
    and out: "pprof IO (Inr [net_1, net_2]) iter_single sample_marks_Write ''''
                = Inr (sample_marks_Write (buildProfile (iter_single prof)) '''')"
    using entry_points_propagate [of IO _ iter_single sample_marks_Write "''''" "[net_1, net_2]"]
    by blast
  have prof: "prof = Map.empty(7 \<mapsto> rec_7)"
    using run run0 by (simp add: rec_7_def)
  have "iter_single prof = [(7, rec_7)]"
    by (simp add: prof iter_single_def)
  then have "sample_marks_Write (buildProfile (iter_single prof)) '''' = (None, ''s'')"
    by (simp add: sample_marks_Write_def buildProfile_rec_7)
  then have "pprof IO (Inr [net_1, net_2]) iter_single sample_marks_Write '''' = Inr (None, ''s'')"
    using out by simp
  moreover have "pprof Syscall (Inl ''bad trace'') iter_single failing_Write ''out''
     = Inr (Some ''bad trace'', ''out'')"
    using entry_points_propagate [of Syscall "''bad trace''" iter_single failing_Write "''out''" "[]"]
    by blast
  ultimately show ?thesis
    by blast
qed

end
